theory Spec2Isabelle
  imports Complex_Main "HOL-Library.Log_Nat"
begin

section \<open>Python numbers\<close>

text \<open>
  The engine computes with Python floats (IEEE 754 binary64) and small Python ints.
  A finite float is modelled by the real number it denotes; every arithmetic
  operation of the source is the exact operation followed by \<open>fl\<close>, the
  rounding to the nearest number with a 53 bit significand, ties to even.  The exponent
  range is not bounded in \<open>fl\<close>: the engine's values lie between \<open>10\<^sup>-\<^sup>5\<close> and
  \<open>10\<^sup>4\<close> in magnitude (or are zero), far from overflow and from the subnormal range.
  Infinities and NaN only matter where a raw input is coerced, and are modelled there
  (\<open>pyfloat\<close>).  The sign of a zero is not modelled; the source never formats a zero
  that could be negative.
\<close>

definition round_half_even :: "real \<Rightarrow> int" where
  "round_half_even x =
     (let f = \<lfloor>x\<rfloor>; d = x - of_int f
      in if d < 1 / 2 then f else if 1 / 2 < d then f + 1 else if even f then f else f + 1)"

text \<open>The binary exponent of a nonzero \<open>x\<close>: the \<open>e\<close> with \<open>2\<^sup>e \<le> \<bar>x\<bar> < 2\<^sup>e\<^sup>+\<^sup>1\<close>, read off
  the bit length of the integer part of \<open>\<bar>x\<bar>\<close> or of \<open>1 / \<bar>x\<bar>\<close>.\<close>

definition binary_exponent :: "real \<Rightarrow> int" where
  "binary_exponent x =
     (if 1 \<le> \<bar>x\<bar> then bitlen \<lfloor>\<bar>x\<bar>\<rfloor> - 1 else - bitlen (\<lceil>1 / \<bar>x\<bar>\<rceil> - 1))"

definition fl :: "real \<Rightarrow> real" where
  "fl x = (if x = 0 then 0
           else let u = 2 powi (binary_exponent x - 52)
                in of_int (round_half_even (x / u)) * u)"

text \<open>Python's \<open>round(x, ndigits)\<close> on a float: the exact value of \<open>x\<close> is rounded to
  \<open>ndigits\<close> decimals, ties to even, and the decimal result is converted to the nearest
  float.\<close>

definition py_round :: "real \<Rightarrow> nat \<Rightarrow> real" where
  "py_round x ndigits = fl (of_int (round_half_even (x * 10 ^ ndigits)) / 10 ^ ndigits)"

text \<open>Python's \<open>f"{x:.{decimals}f}"\<close>: the exact value rounded to \<open>decimals\<close> digits, ties
  to even, printed with a leading minus sign for a negative \<open>x\<close>.\<close>

fun digits :: "nat \<Rightarrow> string" where
  "digits n =
     (if n < 10 then [''0123456789'' ! n]
      else digits (n div 10) @ [''0123456789'' ! (n mod 10)])"

declare digits.simps [simp del]

definition format_fixed :: "real \<Rightarrow> nat \<Rightarrow> string" where
  "format_fixed x decimals =
     (let ds = digits (nat (round_half_even (\<bar>x\<bar> * 10 ^ decimals)));
          ds = replicate (decimals + 1 - length ds) CHR ''0'' @ ds;
          k = length ds - decimals
      in (if x < 0 then ''-'' else '''') @ take k ds
         @ (if decimals = 0 then '''' else ''.'' @ drop k ds))"

section \<open>Raw request values and their coercion\<close>

datatype pyfloat = Finite real | PosInf | NegInf | NaN

datatype pyval =
    PyNone
  | PyBool bool
  | PyInt int
  | PyFloat pyfloat
  | PyStr string
  | PyList "pyval list"
  | PyDict "(string \<times> pyval) list"

datatype pyexc = ValueError | TypeError | OverflowError | KeyError

text \<open>The builtin \<open>float(value)\<close>.  How Python reads a float from a string is a
  parameter: \<open>float_of_str s = None\<close> stands for the \<open>ValueError\<close> of an unreadable
  string.  An int too large for a float raises \<open>OverflowError\<close>.\<close>

definition py_float :: "(string \<Rightarrow> pyfloat option) \<Rightarrow> pyval \<Rightarrow> pyexc + pyfloat" where
  "py_float float_of_str v =
     (case v of
        PyNone \<Rightarrow> Inl TypeError
      | PyBool b \<Rightarrow> Inr (Finite (if b then 1 else 0))
      | PyInt n \<Rightarrow> (if 2 ^ 1024 \<le> \<bar>fl (of_int n)\<bar> then Inl OverflowError
                    else Inr (Finite (fl (of_int n))))
      | PyFloat f \<Rightarrow> Inr f
      | PyStr s \<Rightarrow> (case float_of_str s of None \<Rightarrow> Inl ValueError | Some f \<Rightarrow> Inr f)
      | PyList _ \<Rightarrow> Inl TypeError
      | PyDict _ \<Rightarrow> Inl TypeError)"

text \<open>The builtin \<open>int(x)\<close> on a float truncates toward zero; it raises \<open>ValueError\<close> on
  NaN and \<open>OverflowError\<close> on an infinity.\<close>

definition py_int :: "pyfloat \<Rightarrow> pyexc + int" where
  "py_int f =
     (case f of
        Finite x \<Rightarrow> Inr (if 0 \<le> x then \<lfloor>x\<rfloor> else \<lceil>x\<rceil>)
      | PosInf \<Rightarrow> Inl OverflowError
      | NegInf \<Rightarrow> Inl OverflowError
      | NaN \<Rightarrow> Inl ValueError)"

section \<open>utils/formatters.py\<close>

definition format_currency :: "real \<Rightarrow> string" where
  "format_currency v =
     (let abs_value = \<bar>v\<bar>;
          formatted =
            (if 1000 \<le> abs_value then ''$'' @ format_fixed (fl (abs_value / 1000)) 2 @ ''T''
             else if 1 \<le> abs_value then ''$'' @ format_fixed abs_value 2 @ ''B''
             else ''$'' @ format_fixed (fl (abs_value * 1000)) 2 @ ''M'')
      in if v < 0 then ''-'' @ formatted else formatted)"

text \<open>A Python string is a sequence of code points; the degree sign is the single code
  point 176.\<close>

definition format_temperature :: "real \<Rightarrow> nat \<Rightarrow> string" where
  "format_temperature v decimals =
     (let sign = (if 0 \<le> v then ''+'' else '''')
      in sign @ format_fixed v decimals @ [CHR 0xB0] @ ''C'')"

text \<open>\<open>try: ... except (ValueError, TypeError): return 0\<close>: the two caught exceptions give
  0, any other exception leaves the function.\<close>

definition sanitize_slider_value :: "(string \<Rightarrow> pyfloat option) \<Rightarrow> pyval \<Rightarrow> pyexc + int" where
  "sanitize_slider_value float_of_str v =
     (case py_float float_of_str v of
        Inl e \<Rightarrow> (if e = ValueError \<or> e = TypeError then Inr 0 else Inl e)
      | Inr num_value \<Rightarrow>
          (case py_int num_value of
             Inl e \<Rightarrow> (if e = ValueError \<or> e = TypeError then Inr 0 else Inl e)
           | Inr n \<Rightarrow> Inr (max 0 (min 100 n))))"

definition calculate_efficiency_index :: "real \<Rightarrow> real \<Rightarrow> real" where
  "calculate_efficiency_index temperature_impact fiscal_cost =
     (if fiscal_cost \<le> 0 then fl (\<bar>temperature_impact\<bar> * 1000)
      else let efficiency = fl (\<bar>temperature_impact\<bar> / fiscal_cost)
           in py_round (fl (efficiency * 1000)) 2)"

definition round_to_precision :: "real \<Rightarrow> nat \<Rightarrow> real" where
  "round_to_precision v precision = py_round (fl v) precision"

section \<open>data/mock_repository.py\<close>

record year_point =
  year :: int
  anomaly :: real

record policy_data =
  cost_per_unit :: real
  temperature_impact :: real
  max_impact :: real
  label :: string
  description :: string

record baseline_data =
  base_year :: int
  base_temperature_anomaly :: real
  base_national_debt :: real
  base_policies :: "(string \<times> int) list"


definition BAU_PROJECTION :: "year_point list" where
  "BAU_PROJECTION =
    [\<lparr>year = 2026, anomaly = fl (12 / 10)\<rparr>,
     \<lparr>year = 2027, anomaly = fl (125 / 100)\<rparr>,
     \<lparr>year = 2028, anomaly = fl (131 / 100)\<rparr>,
     \<lparr>year = 2029, anomaly = fl (136 / 100)\<rparr>,
     \<lparr>year = 2030, anomaly = fl (142 / 100)\<rparr>,
     \<lparr>year = 2031, anomaly = fl (147 / 100)\<rparr>,
     \<lparr>year = 2032, anomaly = fl (153 / 100)\<rparr>,
     \<lparr>year = 2033, anomaly = fl (158 / 100)\<rparr>,
     \<lparr>year = 2034, anomaly = fl (164 / 100)\<rparr>,
     \<lparr>year = 2035, anomaly = fl (169 / 100)\<rparr>,
     \<lparr>year = 2036, anomaly = fl (175 / 100)\<rparr>,
     \<lparr>year = 2037, anomaly = fl (180 / 100)\<rparr>,
     \<lparr>year = 2038, anomaly = fl (186 / 100)\<rparr>,
     \<lparr>year = 2039, anomaly = fl (191 / 100)\<rparr>,
     \<lparr>year = 2040, anomaly = fl (197 / 100)\<rparr>,
     \<lparr>year = 2041, anomaly = fl (202 / 100)\<rparr>,
     \<lparr>year = 2042, anomaly = fl (208 / 100)\<rparr>,
     \<lparr>year = 2043, anomaly = fl (213 / 100)\<rparr>,
     \<lparr>year = 2044, anomaly = fl (219 / 100)\<rparr>,
     \<lparr>year = 2045, anomaly = fl (224 / 100)\<rparr>,
     \<lparr>year = 2046, anomaly = fl (230 / 100)\<rparr>,
     \<lparr>year = 2047, anomaly = fl (235 / 100)\<rparr>,
     \<lparr>year = 2048, anomaly = fl (241 / 100)\<rparr>,
     \<lparr>year = 2049, anomaly = fl (246 / 100)\<rparr>,
     \<lparr>year = 2050, anomaly = fl (252 / 100)\<rparr>]"

definition POLICY_COSTS :: "(string \<times> policy_data) list" where
  "POLICY_COSTS =
    [(''ev_adoption'',
      \<lparr>cost_per_unit = fl (12 / 10), temperature_impact = fl (- 8 / 10000), max_impact = fl (- 8 / 100),
       label = ''EV Adoption Incentives'',
       description = ''Subsidies, charging infrastructure, and manufacturer incentives''\<rparr>),
     (''renewable_energy'',
      \<lparr>cost_per_unit = fl (25 / 10), temperature_impact = fl (- 12 / 10000), max_impact = fl (- 12 / 100),
       label = ''Renewable Energy Expansion'',
       description = ''Solar, wind, hydro infrastructure and grid upgrades''\<rparr>),
     (''carbon_tax'',
      \<lparr>cost_per_unit = fl (- 8 / 10), temperature_impact = fl (- 15 / 10000), max_impact = fl (- 15 / 100),
       label = ''Carbon Tax Implementation'',
       description = ''Industrial emissions pricing and regulatory enforcement''\<rparr>),
     (''reforestation'',
      \<lparr>cost_per_unit = fl (6 / 10), temperature_impact = fl (- 5 / 10000), max_impact = fl (- 5 / 100),
       label = ''Reforestation Programs'',
       description = ''Tree planting, forest protection, and carbon sequestration''\<rparr>),
     (''public_transport'',
      \<lparr>cost_per_unit = fl (18 / 10), temperature_impact = fl (- 10 / 10000), max_impact = fl (- 10 / 100),
       label = ''Public Transport Expansion'',
       description = ''Mass transit infrastructure, bus networks, and rail systems''\<rparr>),
     (''industrial_controls'',
      \<lparr>cost_per_unit = fl (15 / 10), temperature_impact = fl (- 13 / 10000), max_impact = fl (- 13 / 100),
       label = ''Industrial Emission Controls'',
       description = ''Factory regulations, emission standards, and monitoring systems''\<rparr>),
     (''green_buildings'',
      \<lparr>cost_per_unit = fl (10 / 10), temperature_impact = fl (- 7 / 10000), max_impact = fl (- 7 / 100),
       label = ''Green Building Standards'',
       description = ''Energy-efficient construction, retrofits, and building codes''\<rparr>),
     (''waste_management'',
      \<lparr>cost_per_unit = fl (8 / 10), temperature_impact = fl (- 6 / 10000), max_impact = fl (- 6 / 100),
       label = ''Waste Management & Recycling'',
       description = ''Recycling programs, waste-to-energy, and landfill reduction''\<rparr>)]"

definition BASELINE_2026 :: baseline_data where
  "BASELINE_2026 =
    \<lparr>base_year = 2026,
     base_temperature_anomaly = fl (12 / 10),
     base_national_debt = 0,
     base_policies =
       [(''ev_adoption'', 0), (''renewable_energy'', 0), (''carbon_tax'', 0),
        (''reforestation'', 0), (''public_transport'', 0), (''industrial_controls'', 0),
        (''green_buildings'', 0), (''waste_management'', 0)]\<rparr>"

definition BANKRUPTCY_THRESHOLD :: real where
  "BANKRUPTCY_THRESHOLD = 1000"


section \<open>core/engine.py\<close>

record breakdown_entry =
  b_policy :: string
  b_level :: int
  b_cost :: real
  b_cost_formatted :: string
  b_temperature_impact :: real
  b_temperature_formatted :: string
  b_description :: string

record treemap_entry =
  t_name :: string
  t_value :: real
  t_formatted :: string
  t_percentage :: real

record efficiency_entry =
  e_policy :: string
  e_efficiency :: real
  e_interpretation :: string

record trend_point =
  tr_year :: int
  tr_anomaly :: real
  tr_anomaly_formatted :: string
  tr_bau_anomaly :: real
  tr_mitigation_applied :: real

record calculation_result =
  total_cost :: real
  total_cost_formatted :: string
  temperature_mitigation :: real
  temperature_mitigation_formatted :: string
  national_debt :: real
  national_debt_formatted :: string
  bankruptcy_flag :: bool
  policy_breakdown :: "breakdown_entry list"
  trend_line :: "trend_point list"
  fiscal_treemap :: "treemap_entry list"
  efficiency_index :: "efficiency_entry list"
  policies_applied :: "(string \<times> int) list"
  warning_message :: "string option"



text \<open>The attributes \<open>__init__\<close> gives a \<open>PolicyEngine\<close>.\<close>

record policy_engine =
  policy_costs :: "(string \<times> policy_data) list"
  bau_projection :: "year_point list"
  baseline :: baseline_data

definition init_engine :: policy_engine where
  "init_engine =
     \<lparr>policy_costs = POLICY_COSTS, bau_projection = BAU_PROJECTION, baseline = BASELINE_2026\<rparr>"

definition interpret_efficiency :: "real \<Rightarrow> string" where
  "interpret_efficiency efficiency_score =
     (if 1 \<le> efficiency_score then ''Excellent''
      else if 1 / 2 \<le> efficiency_score then ''Good''
      else if fl (2 / 10) \<le> efficiency_score then ''Moderate''
      else ''Poor'')"

text \<open>One pass of the loop of \<open>_generate_trend_line\<close>.\<close>

definition trend_entry :: "real \<Rightarrow> year_point \<Rightarrow> trend_point" where
  "trend_entry total_mitigation bau_point =
     (let bau_temp = anomaly bau_point;
          years_from_start = year bau_point - 2026;
          mitigation_factor = min 1 (fl (of_int years_from_start / 9));
          adjusted_temp = fl (bau_temp + fl (total_mitigation * mitigation_factor))
      in \<lparr>tr_year = year bau_point,
          tr_anomaly = round_to_precision adjusted_temp 3,
          tr_anomaly_formatted = format_temperature adjusted_temp 2,
          tr_bau_anomaly = round_to_precision bau_temp 3,
          tr_mitigation_applied = round_to_precision (fl (total_mitigation * mitigation_factor)) 3\<rparr>)"

definition generate_trend_line :: "policy_engine \<Rightarrow> real \<Rightarrow> trend_point list" where
  "generate_trend_line self total_mitigation =
     map (trend_entry total_mitigation) (bau_projection self)"

text \<open>The sanitised inputs: the dict \<open>policies\<close>, built key by key; the first exception
  that \<open>sanitize_slider_value\<close> lets through ends the call.\<close>

definition policy_keys :: "string list" where
  "policy_keys =
     [''ev_adoption'', ''renewable_energy'', ''carbon_tax'', ''reforestation'',
      ''public_transport'', ''industrial_controls'', ''green_buildings'', ''waste_management'']"

fun sanitize_all ::
  "(string \<Rightarrow> pyfloat option) \<Rightarrow> (string \<rightharpoonup> pyval) \<Rightarrow> string list \<Rightarrow> pyexc + (string \<times> int) list"
where
  "sanitize_all float_of_str policy_inputs [] = Inr []"
| "sanitize_all float_of_str policy_inputs (k # ks) =
     (case sanitize_slider_value float_of_str
             (case policy_inputs k of None \<Rightarrow> PyInt 0 | Some v \<Rightarrow> v) of
        Inl e \<Rightarrow> Inl e
      | Inr level \<Rightarrow>
          (case sanitize_all float_of_str policy_inputs ks of
             Inl e \<Rightarrow> Inl e
           | Inr rest \<Rightarrow> Inr ((k, level) # rest)))"

text \<open>The variables the main loop of \<open>calculate_impacts\<close> updates.\<close>

record loop_state =
  acc_total_cost :: real
  acc_total_temp_mitigation :: real
  acc_policy_breakdown :: "breakdown_entry list"
  acc_fiscal_treemap :: "treemap_entry list"
  acc_efficiency_metrics :: "efficiency_entry list"

definition loop_start :: loop_state where
  "loop_start =
     \<lparr>acc_total_cost = 0, acc_total_temp_mitigation = 0, acc_policy_breakdown = [],
      acc_fiscal_treemap = [], acc_efficiency_metrics = []\<rparr>"

text \<open>The temperature contribution of one lever: the linear impact, capped.\<close>

definition capped_temp_impact :: "policy_data \<Rightarrow> int \<Rightarrow> real" where
  "capped_temp_impact pd level =
     max (fl (temperature_impact pd * of_int level)) (max_impact pd)"

definition loop_body :: "policy_data \<Rightarrow> int \<Rightarrow> loop_state \<Rightarrow> loop_state" where
  "loop_body pd level s =
     (let cost = fl (cost_per_unit pd * of_int level);
          temp_impact = capped_temp_impact pd level;
          efficiency = calculate_efficiency_index temp_impact cost
      in \<lparr>acc_total_cost = fl (acc_total_cost s + cost),
          acc_total_temp_mitigation = fl (acc_total_temp_mitigation s + temp_impact),
          acc_policy_breakdown = acc_policy_breakdown s @
            [\<lparr>b_policy = label pd,
              b_level = level,
              b_cost = round_to_precision cost 2,
              b_cost_formatted = format_currency cost,
              b_temperature_impact = round_to_precision temp_impact 3,
              b_temperature_formatted = format_temperature temp_impact 3,
              b_description = description pd\<rparr>],
          acc_fiscal_treemap = acc_fiscal_treemap s @
            (if 0 < cost
             then [\<lparr>t_name = label pd,
                    t_value = round_to_precision cost 2,
                    t_formatted = format_currency cost,
                    t_percentage = 0\<rparr>]
             else []),
          acc_efficiency_metrics = acc_efficiency_metrics s @
            [\<lparr>e_policy = label pd,
              e_efficiency = efficiency,
              e_interpretation = interpret_efficiency efficiency\<rparr>]\<rparr>)"

fun impact_loop :: "policy_engine \<Rightarrow> (string \<times> int) list \<Rightarrow> loop_state \<Rightarrow> pyexc + loop_state" where
  "impact_loop self [] s = Inr s"
| "impact_loop self ((policy_key, level) # rest) s =
     (if level = 0 then impact_loop self rest s
      else case map_of (policy_costs self) policy_key of
             None \<Rightarrow> Inl KeyError
           | Some pd \<Rightarrow> impact_loop self rest (loop_body pd level s))"

text \<open>\<open>sum(item["value"] for item in fiscal_treemap)\<close>: float additions from the int 0,
  left to right.\<close>

fun sum_from :: "real \<Rightarrow> real list \<Rightarrow> real" where
  "sum_from acc [] = acc"
| "sum_from acc (x # xs) = sum_from (fl (acc + x)) xs"

definition py_sum :: "real list \<Rightarrow> real" where
  "py_sum xs = sum_from 0 xs"

text \<open>One pass of the loop that fills in the percentages.\<close>

definition set_percentage :: "real \<Rightarrow> treemap_entry \<Rightarrow> treemap_entry" where
  "set_percentage total_positive_cost item =
     item\<lparr>t_percentage :=
       round_to_precision (fl (fl (t_value item / total_positive_cost) * 100)) 1\<rparr>"

definition treemap_percentages :: "treemap_entry list \<Rightarrow> treemap_entry list" where
  "treemap_percentages tm =
     (let total_positive_cost = py_sum (map t_value tm)
      in if 0 < total_positive_cost then map (set_percentage total_positive_cost) tm else tm)"

definition build_result :: "policy_engine \<Rightarrow> (string \<times> int) list \<Rightarrow> loop_state \<Rightarrow> calculation_result" where
  "build_result self policies s =
     (let total_cost = acc_total_cost s;
          total_temp_mitigation = acc_total_temp_mitigation s;
          fiscal_treemap = treemap_percentages (acc_fiscal_treemap s);
          trend_line = generate_trend_line self total_temp_mitigation;
          national_debt = total_cost;
          bankruptcy_flag = (BANKRUPTCY_THRESHOLD < national_debt)
      in \<lparr>total_cost = round_to_precision total_cost 2,
          total_cost_formatted = format_currency total_cost,
          temperature_mitigation = round_to_precision total_temp_mitigation 3,
          temperature_mitigation_formatted = format_temperature total_temp_mitigation 3,
          national_debt = round_to_precision national_debt 2,
          national_debt_formatted = format_currency national_debt,
          bankruptcy_flag = bankruptcy_flag,
          policy_breakdown = acc_policy_breakdown s,
          trend_line = trend_line,
          fiscal_treemap = fiscal_treemap,
          efficiency_index = acc_efficiency_metrics s,
          policies_applied = policies,
          warning_message =
            (if bankruptcy_flag then Some ''ECONOMIC COLLAPSE IMMINENT'' else None)\<rparr>)"

definition calculate_impacts ::
  "policy_engine \<Rightarrow> (string \<Rightarrow> pyfloat option) \<Rightarrow> (string \<rightharpoonup> pyval) \<Rightarrow> pyexc + calculation_result"
where
  "calculate_impacts self float_of_str policy_inputs =
     (case sanitize_all float_of_str policy_inputs policy_keys of
        Inl e \<Rightarrow> Inl e
      | Inr policies \<Rightarrow>
          (case impact_loop self policies loop_start of
             Inl e \<Rightarrow> Inl e
           | Inr s \<Rightarrow> Inr (build_result self policies s)))"



text \<open>The percentages of the treemap as a function of the values of its entries and their
  float sum (used to state and prove properties of \<open>treemap_percentages\<close>).\<close>

fun percentages_of :: "real \<Rightarrow> real list \<Rightarrow> real list" where
  "percentages_of total_positive_cost [] = []"
| "percentages_of total_positive_cost (v # vs) =
     round_to_precision (fl (fl (v / total_positive_cost) * 100)) 1
       # percentages_of total_positive_cost vs"

section \<open>Rounding to the nearest integer\<close>

lemma round_half_even_cases:
  "round_half_even x = \<lfloor>x\<rfloor> \<or> round_half_even x = \<lfloor>x\<rfloor> + 1"
  by (simp add: round_half_even_def Let_def)

lemma round_half_even_error: "\<bar>of_int (round_half_even x) - x\<bar> \<le> 1 / 2"
proof -
  have "of_int \<lfloor>x\<rfloor> \<le> x" "x < of_int \<lfloor>x\<rfloor> + 1"
    by linarith+
  then show ?thesis
    by (auto simp: round_half_even_def Let_def)
qed

lemma round_half_even_of_int [simp]: "round_half_even (of_int n) = n"
  by (simp add: round_half_even_def)

lemma round_half_even_mono:
  assumes "x \<le> y"
  shows "round_half_even x \<le> round_half_even y"
proof (cases "\<lfloor>x\<rfloor> = \<lfloor>y\<rfloor>")
  case True
  with assms show ?thesis
    by (auto simp: round_half_even_def Let_def)
next
  case False
  with assms have "\<lfloor>x\<rfloor> < \<lfloor>y\<rfloor>"
    by (simp add: floor_mono order.not_eq_order_implies_strict)
  then have "\<lfloor>x\<rfloor> + 1 \<le> \<lfloor>y\<rfloor>"
    by simp
  moreover have "round_half_even x \<le> \<lfloor>x\<rfloor> + 1"
    using round_half_even_cases [of x] by auto
  moreover have "\<lfloor>y\<rfloor> \<le> round_half_even y"
    using round_half_even_cases [of y] by auto
  ultimately show ?thesis
    by linarith
qed

lemma round_half_even_minus: "round_half_even (- x) = - round_half_even x"
proof (cases "x = of_int \<lfloor>x\<rfloor>")
  case True
  then obtain n where "x = of_int n" ..
  then have "- x = of_int (- n)" by simp
  then show ?thesis
    using \<open>x = of_int n\<close> round_half_even_of_int by metis
next
  case False
  then have "\<lceil>x\<rceil> = \<lfloor>x\<rfloor> + 1"
    by (simp add: ceiling_altdef)
  then have fl: "\<lfloor>- x\<rfloor> = - \<lfloor>x\<rfloor> - 1"
    by (simp add: ceiling_def)
  have "even (- \<lfloor>x\<rfloor> - 1) \<longleftrightarrow> odd \<lfloor>x\<rfloor>"
    by simp
  with fl show ?thesis
    by (auto simp: round_half_even_def Let_def)
qed

section \<open>The binary exponent\<close>

lemma two_powi_less_imp:
  assumes "2 powi a < (2::real) powi b"
  shows "a < b"
proof (rule ccontr)
  assume "\<not> a < b"
  then have "b \<le> a" by simp
  then have "(2::real) powi b \<le> 2 powi a"
    by (intro power_int_increasing) auto
  with assms show False by simp
qed

lemma binary_exponent_bounds:
  assumes "x \<noteq> 0"
  shows "2 powi binary_exponent x \<le> \<bar>x\<bar>" and "\<bar>x\<bar> < 2 powi (binary_exponent x + 1)"
proof -
  have "2 powi binary_exponent x \<le> \<bar>x\<bar> \<and> \<bar>x\<bar> < 2 powi (binary_exponent x + 1)"
  proof (cases "1 \<le> \<bar>x\<bar>")
    case True
    define n where "n = \<lfloor>\<bar>x\<bar>\<rfloor>"
    have n: "0 < n" "of_int n \<le> \<bar>x\<bar>" "\<bar>x\<bar> < of_int n + 1"
      using True by (auto simp: n_def)
    have e: "binary_exponent x = bitlen n - 1"
      using True by (simp add: binary_exponent_def n_def)
    have b1: "1 \<le> bitlen n"
      using n(1) by (simp add: bitlen_alt_def)
    from bitlen_bounds [OF n(1)] have b: "2 ^ nat (bitlen n - 1) \<le> n" "n < 2 ^ nat (bitlen n)"
      by auto
    have "(2::real) powi (bitlen n - 1) = of_int (2 ^ nat (bitlen n - 1))"
      using b1 by (simp add: power_int_def)
    also have "\<dots> \<le> of_int n"
      using b(1) by (simp only: of_int_le_iff)
    finally have lo: "2 powi (bitlen n - 1) \<le> \<bar>x\<bar>"
      using n(2) by linarith
    have "n + 1 \<le> 2 ^ nat (bitlen n)"
      using b(2) by simp
    then have "(of_int (n + 1) :: real) \<le> of_int (2 ^ nat (bitlen n))"
      by (simp only: of_int_le_iff)
    also have "\<dots> = 2 powi (bitlen n)"
      using b1 by (simp add: power_int_def)
    finally have hi: "\<bar>x\<bar> < 2 powi (bitlen n)"
      using n(3) by simp
    from lo hi e show ?thesis by simp
  next
    case False
    define y where "y = 1 / \<bar>x\<bar>"
    define n where "n = \<lceil>y\<rceil>"
    have x: "0 < \<bar>x\<bar>" "\<bar>x\<bar> < 1"
      using assms False by auto
    then have y: "1 < y"
      by (simp add: y_def)
    have n: "of_int n - 1 < y" "y \<le> of_int n"
      unfolding n_def by linarith+
    with y have n1: "0 < n - 1"
      by linarith
    have e: "binary_exponent x = - bitlen (n - 1)"
      using False by (simp add: binary_exponent_def n_def y_def)
    define k where "k = bitlen (n - 1)"
    have k1: "1 \<le> k"
      using n1 by (simp add: bitlen_alt_def k_def)
    from bitlen_bounds [OF n1] have b: "2 ^ nat (k - 1) \<le> n - 1" "n - 1 < 2 ^ nat k"
      by (auto simp: k_def)
    have "(2::real) powi (k - 1) = of_int (2 ^ nat (k - 1))"
      using k1 by (simp add: power_int_def)
    also have "\<dots> \<le> of_int (n - 1)"
      using b(1) by (simp only: of_int_le_iff)
    finally have "2 powi (k - 1) < y"
      using n(1) by simp
    then have "\<bar>x\<bar> < 1 / 2 powi (k - 1)"
      using x(1) by (simp add: y_def field_simps)
    then have hi: "\<bar>x\<bar> < 2 powi (- k + 1)"
      by (simp add: power_int_minus_divide [symmetric])
    have "n \<le> 2 ^ nat k"
      using b(2) by simp
    then have "(of_int n :: real) \<le> of_int (2 ^ nat k)"
      by (simp only: of_int_le_iff)
    also have "\<dots> = 2 powi k"
      using k1 by (simp add: power_int_def)
    finally have "y \<le> 2 powi k"
      using n(2) by linarith
    then have "1 / 2 powi k \<le> \<bar>x\<bar>"
      using x(1) by (simp add: y_def field_simps)
    then have lo: "2 powi (- k) \<le> \<bar>x\<bar>"
      by (simp add: power_int_minus_divide)
    from lo hi e show ?thesis by (simp add: k_def)
  qed
  then show "2 powi binary_exponent x \<le> \<bar>x\<bar>" and "\<bar>x\<bar> < 2 powi (binary_exponent x + 1)"
    by auto
qed

lemma binary_exponent_unique:
  assumes "2 powi e \<le> \<bar>x\<bar>" and "\<bar>x\<bar> < 2 powi (e + 1)"
  shows "binary_exponent x = e"
proof -
  have "0 < (2::real) powi e"
    by simp
  with assms(1) have "0 < \<bar>x\<bar>"
    by linarith
  then have "x \<noteq> 0"
    by simp
  note b = binary_exponent_bounds [OF this]
  have "2 powi e < (2::real) powi (binary_exponent x + 1)"
    using assms(1) b(2) by linarith
  then have "e < binary_exponent x + 1"
    by (rule two_powi_less_imp)
  moreover have "2 powi binary_exponent x < (2::real) powi (e + 1)"
    using assms(2) b(1) by linarith
  then have "binary_exponent x < e + 1"
    by (rule two_powi_less_imp)
  ultimately show ?thesis by simp
qed

lemma binary_exponent_minus [simp]: "binary_exponent (- x) = binary_exponent x"
  by (simp add: binary_exponent_def)

lemma binary_exponent_mono:
  assumes "x \<noteq> 0" and "\<bar>x\<bar> \<le> \<bar>y\<bar>"
  shows "binary_exponent x \<le> binary_exponent y"
proof -
  have y: "y \<noteq> 0" using assms by auto
  have "2 powi binary_exponent x < (2::real) powi (binary_exponent y + 1)"
    using binary_exponent_bounds(1) [OF assms(1)] binary_exponent_bounds(2) [OF y] assms(2)
    by linarith
  then have "binary_exponent x < binary_exponent y + 1"
    by (rule two_powi_less_imp)
  then show ?thesis by simp
qed


section \<open>Rounding to a float\<close>

lemma two_powi_shift: "(2::real) powi (e + int n) = 2 ^ n * 2 powi e"
  by (simp add: power_int_add)

lemma two_powi_split: "(2::real) powi e = 2 ^ n * 2 powi (e - int n)"
  using two_powi_shift [of "e - int n" n] by simp

lemma two_powi_pos: "0 < (2::real) powi e"
  by simp

lemma fl_zero [simp]: "fl 0 = 0"
  by (simp add: fl_def)

lemma fl_minus: "fl (- x) = - fl x"
  by (simp add: fl_def Let_def round_half_even_minus)

lemma fl_pos_bounds:
  assumes "0 < x"
  defines "e \<equiv> binary_exponent x"
  shows "2 powi e \<le> fl x" and "fl x \<le> 2 powi (e + 1)"
    and "\<bar>fl x - x\<bar> \<le> 2 powi (e - 53)"
proof -
  define u :: real where "u = 2 powi (e - 52)"
  have u: "0 < u"
    by (simp add: u_def)
  have x0: "x \<noteq> 0"
    using assms by simp
  have flx: "fl x = of_int (round_half_even (x / u)) * u"
    using x0 by (simp add: fl_def Let_def u_def e_def)
  have p52: "(2::real) powi e = 2 ^ 52 * u"
    using two_powi_shift [of "e - 52" 52] by (simp add: u_def)
  have p53: "(2::real) powi (e + 1) = 2 ^ 53 * u"
    using two_powi_split [of "e + 1" 53] by (simp add: u_def)
  have half: "(2::real) powi (e - 53) = u / 2"
    using two_powi_shift [of "e - 53" 1] by (simp add: u_def)
  from binary_exponent_bounds [OF x0, folded e_def] assms(1)
  have "2 ^ 52 * u \<le> x" "x < 2 ^ 53 * u"
    by (simp_all add: p52 p53)
  then have q: "2 ^ 52 \<le> x / u" "x / u \<le> 2 ^ 53"
    using u by (simp_all add: field_simps)
  have "round_half_even (of_int (2 ^ 52)) \<le> round_half_even (x / u)"
    using q(1) by (intro round_half_even_mono) simp
  then have lo: "2 ^ 52 \<le> round_half_even (x / u)"
    by (simp only: round_half_even_of_int)
  have "round_half_even (x / u) \<le> round_half_even (of_int (2 ^ 53))"
    using q(2) by (intro round_half_even_mono) simp
  then have hi: "round_half_even (x / u) \<le> 2 ^ 53"
    by (simp only: round_half_even_of_int)
  have "(of_int (2 ^ 52) :: real) \<le> of_int (round_half_even (x / u))"
    using lo by (simp only: of_int_le_iff)
  then have "2 ^ 52 * u \<le> of_int (round_half_even (x / u)) * u"
    using u by simp
  then show "2 powi e \<le> fl x"
    by (simp add: p52 flx)
  have "(of_int (round_half_even (x / u)) :: real) \<le> of_int (2 ^ 53)"
    using hi by (simp only: of_int_le_iff)
  then have "of_int (round_half_even (x / u)) * u \<le> 2 ^ 53 * u"
    using u by simp
  then show "fl x \<le> 2 powi (e + 1)"
    by (simp add: p53 flx)
  have "\<bar>of_int (round_half_even (x / u)) - x / u\<bar> * u \<le> 1 / 2 * u"
    using round_half_even_error [of "x / u"] u by (intro mult_right_mono) auto
  moreover have "\<bar>of_int (round_half_even (x / u)) - x / u\<bar> * u
      = \<bar>of_int (round_half_even (x / u)) * u - x\<bar>"
  proof -
    have eq: "(of_int (round_half_even (x / u)) - x / u) * u
        = of_int (round_half_even (x / u)) * u - x"
      using u by (simp add: left_diff_distrib)
    have "\<bar>of_int (round_half_even (x / u)) - x / u\<bar> * u
        = \<bar>of_int (round_half_even (x / u)) - x / u\<bar> * \<bar>u\<bar>"
      using u by simp
    also have "\<dots> = \<bar>(of_int (round_half_even (x / u)) - x / u) * u\<bar>"
      by (simp only: abs_mult)
    finally show ?thesis
      by (simp only: eq)
  qed
  ultimately show "\<bar>fl x - x\<bar> \<le> 2 powi (e - 53)"
    by (simp add: flx half)
qed

lemma fl_nonneg: "0 \<le> x \<Longrightarrow> 0 \<le> fl x"
proof (cases "x = 0")
  case False
  assume "0 \<le> x"
  with False have "0 < x" by simp
  from fl_pos_bounds(1) [OF this] two_powi_pos [of "binary_exponent x"]
  show ?thesis by linarith
qed simp

lemma fl_nonpos: "x \<le> 0 \<Longrightarrow> fl x \<le> 0"
  using fl_nonneg [of "- x"] by (simp add: fl_minus)

lemma fl_pos: "0 < x \<Longrightarrow> 0 < fl x"
  using fl_pos_bounds(1) [of x] two_powi_pos [of "binary_exponent x"]
  by linarith

lemma fl_mono_pos:
  assumes "0 < x" and "x \<le> y"
  shows "fl x \<le> fl y"
proof -
  have y: "0 < y" using assms by simp
  have x0: "x \<noteq> 0" and y0: "y \<noteq> 0" using assms by auto
  have le: "binary_exponent x \<le> binary_exponent y"
    using assms by (intro binary_exponent_mono) auto
  show ?thesis
  proof (cases "binary_exponent x = binary_exponent y")
    case True
    have "round_half_even (x / 2 powi (binary_exponent y - 52))
        \<le> round_half_even (y / 2 powi (binary_exponent y - 52))"
      using assms(2) by (intro round_half_even_mono divide_right_mono) auto
    then have "(of_int (round_half_even (x / 2 powi (binary_exponent y - 52))) :: real)
        \<le> of_int (round_half_even (y / 2 powi (binary_exponent y - 52)))"
      by (simp only: of_int_le_iff)
    then show ?thesis
      using x0 y0 True by (simp add: fl_def Let_def)
  next
    case False
    with le have "binary_exponent x + 1 \<le> binary_exponent y"
      by simp
    then have "(2::real) powi (binary_exponent x + 1) \<le> 2 powi binary_exponent y"
      by (intro power_int_increasing) auto
    with fl_pos_bounds(2) [OF assms(1)] fl_pos_bounds(1) [OF y] show ?thesis
      by linarith
  qed
qed

lemma fl_mono:
  assumes "x \<le> y"
  shows "fl x \<le> fl y"
proof -
  consider "0 < x" | "x \<le> 0" "0 \<le> y" | "y < 0"
    by linarith
  then show ?thesis
  proof cases
    case 1
    then show ?thesis using assms by (rule fl_mono_pos)
  next
    case 2
    then show ?thesis
      using fl_nonpos [of x] fl_nonneg [of y] by linarith
  next
    case 3
    then have "fl (- y) \<le> fl (- x)"
      using assms by (intro fl_mono_pos) auto
    then show ?thesis
      by (simp add: fl_minus)
  qed
qed

lemma fl_error: "\<bar>fl x - x\<bar> \<le> \<bar>x\<bar> / 2 ^ 53"
proof -
  have pos: "\<bar>fl z - z\<bar> \<le> \<bar>z\<bar> / 2 ^ 53" if z: "0 < z" for z
  proof -
    have z0: "z \<noteq> 0" using z by simp
    have "(2::real) powi (binary_exponent z - 53) = 2 powi binary_exponent z / 2 ^ 53"
      using two_powi_shift [of "binary_exponent z - 53" 53] by simp
    also have "\<dots> \<le> \<bar>z\<bar> / 2 ^ 53"
      using binary_exponent_bounds(1) [OF z0] by (intro divide_right_mono) auto
    finally show ?thesis
      using fl_pos_bounds(3) [OF z] by linarith
  qed
  consider "0 < x" | "x = 0" | "x < 0"
    by linarith
  then show ?thesis
  proof cases
    case 1
    then show ?thesis by (rule pos)
  next
    case 2
    then show ?thesis by simp
  next
    case 3
    then have "\<bar>fl (- x) - (- x)\<bar> \<le> \<bar>- x\<bar> / 2 ^ 53"
      by (intro pos) simp
    then show ?thesis
      by (simp add: fl_minus abs_minus_commute)
  qed
qed

text \<open>A number with a significand of at most 53 bits is a float.\<close>

lemma fl_representable_pos:
  assumes "2 ^ 52 \<le> m" and "m < 2 ^ 53"
  shows "fl (of_int m * 2 powi k) = of_int m * 2 powi k"
proof -
  define x :: real where "x = of_int m * 2 powi k"
  have "(of_int (2 ^ 52) :: real) \<le> of_int m" "(of_int m :: real) < of_int (2 ^ 53)"
    using assms by (simp_all only: of_int_le_iff of_int_less_iff)
  then have m: "(2 ^ 52 :: real) \<le> of_int m" "(of_int m :: real) < 2 ^ 53"
    by simp_all
  have p: "0 < (2::real) powi k"
    by simp
  have ax: "\<bar>x\<bar> = of_int m * 2 powi k"
    using m(1) by (simp add: x_def abs_mult)
  have "(2::real) powi (k + 52) = 2 ^ 52 * 2 powi k"
    using two_powi_shift [of k 52] by simp
  also have "\<dots> \<le> of_int m * 2 powi k"
    using m(1) p by (intro mult_right_mono) auto
  finally have lo: "2 powi (k + 52) \<le> \<bar>x\<bar>"
    by (simp only: ax)
  have "of_int m * 2 powi k < 2 ^ 53 * (2::real) powi k"
    using m(2) p by (intro mult_strict_right_mono) auto
  also have "\<dots> = 2 powi (k + 52 + 1)"
    using two_powi_split [of "k + 52 + 1" 53] by simp
  finally have hi: "\<bar>x\<bar> < 2 powi (k + 52 + 1)"
    by (simp only: ax)
  have e: "binary_exponent x = k + 52"
    using lo hi by (rule binary_exponent_unique)
  have "x \<noteq> 0"
    using m(1) p by (simp add: x_def)
  then show ?thesis
    unfolding x_def [symmetric] by (simp add: fl_def e) (simp add: x_def)
qed

lemma fl_idem: "fl (fl x) = fl x"
proof -
  have pos: "fl (fl z) = fl z" if z: "0 < z" for z
  proof -
    define e where "e = binary_exponent z"
    define m where "m = round_half_even (z / 2 powi (e - 52))"
    have flz: "fl z = of_int m * 2 powi (e - 52)"
      using z by (simp add: fl_def Let_def m_def e_def)
    have p52: "(2::real) powi e = 2 ^ 52 * 2 powi (e - 52)"
      using two_powi_shift [of "e - 52" 52] by simp
    have p53: "(2::real) powi (e + 1) = 2 ^ 53 * 2 powi (e - 52)"
      using two_powi_split [of "e + 1" 53] by simp
    from fl_pos_bounds(1,2) [OF z]
    have "2 ^ 52 * 2 powi (e - 52) \<le> of_int m * (2::real) powi (e - 52)"
      and "of_int m * (2::real) powi (e - 52) \<le> 2 ^ 53 * 2 powi (e - 52)"
      by (simp_all add: flz p52 p53 flip: e_def)
    then have "(2 ^ 52 :: real) \<le> of_int m" "(of_int m :: real) \<le> 2 ^ 53"
      by simp_all
    then have "(of_int (2 ^ 52) :: real) \<le> of_int m" "(of_int m :: real) \<le> of_int (2 ^ 53)"
      by simp_all
    then have m: "2 ^ 52 \<le> m" "m \<le> 2 ^ 53"
      by (simp_all only: of_int_le_iff)
    show ?thesis
    proof (cases "m = 2 ^ 53")
      case True
      have "fl z = of_int (2 ^ 52) * 2 powi (e - 51)"
        using two_powi_shift [of "e - 52" 1] by (simp add: flz True)
      moreover have "fl (of_int (2 ^ 52) * 2 powi (e - 51)) = of_int (2 ^ 52) * 2 powi (e - 51)"
        by (rule fl_representable_pos) simp_all
      ultimately show ?thesis by simp
    next
      case False
      with m have "m < 2 ^ 53" by simp
      with m(1) show ?thesis
        unfolding flz by (rule fl_representable_pos)
    qed
  qed
  consider "0 < x" | "x = 0" | "x < 0"
    by linarith
  then show ?thesis
  proof cases
    case 1
    then show ?thesis by (rule pos)
  next
    case 2
    then show ?thesis by simp
  next
    case 3
    then have "fl (fl (- x)) = fl (- x)"
      by (intro pos) simp
    then show ?thesis
      by (simp add: fl_minus)
  qed
qed

lemma py_round_mono: "x \<le> y \<Longrightarrow> py_round x n \<le> py_round y n"
  unfolding py_round_def
  by (intro fl_mono divide_right_mono round_half_even_mono mult_right_mono)
    (simp_all add: of_int_le_iff round_half_even_mono mult_right_mono)

lemma round_to_precision_mono: "x \<le> y \<Longrightarrow> round_to_precision x n \<le> round_to_precision y n"
  unfolding round_to_precision_def by (intro py_round_mono fl_mono)

lemma round_to_precision_fl [simp]: "round_to_precision (fl x) n = round_to_precision x n"
  by (simp add: round_to_precision_def fl_idem)

lemma round_half_even_zero [simp]: "round_half_even 0 = 0"
  by (simp add: round_half_even_def)

lemma round_to_precision_zero [simp]: "round_to_precision 0 n = 0"
  by (simp add: round_to_precision_def py_round_def)

section \<open>Evaluation on numerals\<close>

text \<open>Equations that let the simplifier compute the recursive functions on numerals.\<close>

lemma bitlen_One: "bitlen 1 = 1"
  by (subst compute_bitlen) simp

lemma bitlen_num_One: "bitlen (numeral Num.One) = 1"
  by (simp add: bitlen_One)

lemma bitlen_Bit0: "bitlen (numeral (Num.Bit0 k)) = bitlen (numeral k) + 1"
  by (subst compute_bitlen) simp

lemma bitlen_Bit1: "bitlen (numeral (Num.Bit1 k)) = bitlen (numeral k) + 1"
  by (subst compute_bitlen) simp

lemma digits_numeral:
  "digits (numeral k) =
     (if (numeral k :: nat) < 10 then [''0123456789'' ! numeral k]
      else digits (numeral k div 10) @ [''0123456789'' ! (numeral k mod 10)])"
  by (rule digits.simps)

lemma digits_0: "digits 0 = ''0''"
  by (simp add: digits.simps)

lemma digits_1: "digits 1 = ''1''"
  by (simp add: digits.simps)

lemma digits_Suc0: "digits (Suc 0) = ''1''"
  by (simp add: digits.simps)

text \<open>The numeric functions are unfolded on numerals only, so that the simplifier never
  unfolds them on a term it cannot compute.\<close>

lemmas fl_numeral =
  fl_def [of "numeral a / numeral b"] fl_def [of "numeral a"]
  fl_def [of "1 / numeral b"] fl_def [of 1] fl_def [of 0] for a b

lemmas binary_exponent_numeral =
  binary_exponent_def [of "numeral a / numeral b"] binary_exponent_def [of "numeral a"]
  binary_exponent_def [of "1 / numeral b"] binary_exponent_def [of 1] for a b

lemmas round_half_even_numeral =
  round_half_even_def [of "numeral a / numeral b"] round_half_even_def [of "numeral a"]
  round_half_even_def [of "1 / numeral b"] round_half_even_def [of 1]
  round_half_even_def [of 0] for a b

lemmas py_round_numeral =
  py_round_def [of "numeral a / numeral b"] py_round_def [of "numeral a"]
  py_round_def [of "1 / numeral b"] py_round_def [of 1] py_round_def [of 0]
  py_round_def [of "- (numeral a / numeral b)"] py_round_def [of "- numeral a"]
  py_round_def [of "- (1 / numeral b)"] py_round_def [of "- 1"] for a b

lemmas format_fixed_numeral =
  format_fixed_def [of "numeral a / numeral b"] format_fixed_def [of "numeral a"]
  format_fixed_def [of "1 / numeral b"] format_fixed_def [of 1] format_fixed_def [of 0]
  format_fixed_def [of "- (numeral a / numeral b)"] format_fixed_def [of "- numeral a"]
  format_fixed_def [of "- (1 / numeral b)"] format_fixed_def [of "- 1"] for a b

lemmas num_eval = fl_numeral binary_exponent_numeral round_half_even_numeral py_round_numeral
  fl_minus round_half_even_minus binary_exponent_minus
  Let_def bitlen_One bitlen_num_One bitlen_Bit0 bitlen_Bit1 round_to_precision_def

lemmas fmt_eval = format_fixed_numeral format_temperature_def format_currency_def
  digits_numeral digits_0 digits_1 digits_Suc0

section \<open>Sanitisation of the slider values\<close>

text \<open>Whatever the raw value, \<open>sanitize_slider_value\<close> either returns a level between 0
  and 100 or lets an \<open>OverflowError\<close> through; no other exception leaves it.\<close>

lemma sanitize_slider_value_cases:
  "(\<exists>n. sanitize_slider_value float_of_str v = Inr n \<and> 0 \<le> n \<and> n \<le> 100)
   \<or> sanitize_slider_value float_of_str v = Inl OverflowError"
  by (auto simp: sanitize_slider_value_def py_float_def py_int_def
           split: sum.splits pyval.splits pyfloat.splits option.splits if_splits)

lemma sanitize_slider_value_range:
  "sanitize_slider_value float_of_str v = Inr n \<Longrightarrow> 0 \<le> n \<and> n \<le> 100"
  using sanitize_slider_value_cases [of float_of_str v] by auto

text \<open>
  Claim C4 says that sanitisation returns an integer in \<open>[0, 100]\<close> for every raw value
  and never raises.  On the float infinity (the JSON number \<open>1e999\<close>, or what
  \<open>float\<close> reads from the string \<open>inf\<close>) the call \<open>int(num_value)\<close> raises
  \<open>OverflowError\<close>, which the \<open>except (ValueError, TypeError)\<close> clause does not catch:
  the exception leaves \<open>sanitize_slider_value\<close> and ends \<open>calculate_impacts\<close>.
\<close>

theorem sanitize_slider_value_infinity:
  "sanitize_slider_value float_of_str (PyFloat PosInf) = Inl OverflowError
   \<and> calculate_impacts init_engine float_of_str [''ev_adoption'' \<mapsto> PyFloat PosInf]
       = Inl OverflowError"
  by (simp add: sanitize_slider_value_def py_float_def py_int_def calculate_impacts_def
        policy_keys_def)

section \<open>The shape of a result\<close>

lemma calculate_impacts_Inr:
  "calculate_impacts self float_of_str policy_inputs = Inr r \<Longrightarrow>
   \<exists>policies s. sanitize_all float_of_str policy_inputs policy_keys = Inr policies
     \<and> impact_loop self policies loop_start = Inr s
     \<and> r = build_result self policies s"
  by (auto simp: calculate_impacts_def split: sum.splits)

lemma sanitize_all_absent:
  "sanitize_all (\<lambda>_. None) Map.empty policy_keys = Inr (base_policies BASELINE_2026)"
  by (simp add: policy_keys_def sanitize_slider_value_def py_float_def py_int_def
        BASELINE_2026_def num_eval)

section \<open>The baseline state\<close>


section \<open>The main loop\<close>

lemma loop_body_total_cost:
  "acc_total_cost (loop_body pd level s)
     = fl (acc_total_cost s + fl (cost_per_unit pd * of_int level))"
  by (simp add: loop_body_def Let_def)

lemma loop_body_total_temp:
  "acc_total_temp_mitigation (loop_body pd level s)
     = fl (acc_total_temp_mitigation s + capped_temp_impact pd level)"
  by (simp add: loop_body_def Let_def)

lemma loop_body_breakdown:
  "acc_policy_breakdown (loop_body pd level s) = acc_policy_breakdown s @
     [\<lparr>b_policy = label pd, b_level = level,
       b_cost = round_to_precision (fl (cost_per_unit pd * of_int level)) 2,
       b_cost_formatted = format_currency (fl (cost_per_unit pd * of_int level)),
       b_temperature_impact = round_to_precision (capped_temp_impact pd level) 3,
       b_temperature_formatted = format_temperature (capped_temp_impact pd level) 3,
       b_description = description pd\<rparr>]"
  by (simp add: loop_body_def Let_def)

lemma POLICY_COSTS_nonpos:
  assumes "map_of POLICY_COSTS policy_key = Some pd"
  shows "temperature_impact pd \<le> 0" and "max_impact pd \<le> 0"
  using assms by (auto simp: POLICY_COSTS_def fl_nonpos split: if_splits)

text \<open>
  Claim C3: for every lever of the table and every level between 0 and 100, the
  temperature contribution the loop adds to the total (and records in the breakdown,
  rounded) is the maximum of the float product \<open>temperature_impact * level\<close> and
  \<open>max_impact\<close>; it is never positive, and its magnitude never exceeds the magnitude of
  \<open>max_impact\<close>, at level 100 as at every other level.
\<close>

theorem capped_temp_impact_saturates:
  assumes "map_of (policy_costs init_engine) policy_key = Some pd"
    and "0 \<le> level" and "level \<le> 100"
  shows "acc_total_temp_mitigation (loop_body pd level s)
       = fl (acc_total_temp_mitigation s
             + max (fl (temperature_impact pd * of_int level)) (max_impact pd))
     \<and> b_temperature_impact (last (acc_policy_breakdown (loop_body pd level s)))
       = round_to_precision (max (fl (temperature_impact pd * of_int level)) (max_impact pd)) 3
     \<and> max (fl (temperature_impact pd * of_int level)) (max_impact pd) \<le> 0
     \<and> \<bar>max (fl (temperature_impact pd * of_int level)) (max_impact pd)\<bar> \<le> \<bar>max_impact pd\<bar>"
proof -
  from assms(1) have pd: "map_of POLICY_COSTS policy_key = Some pd"
    by (simp add: init_engine_def)
  note np = POLICY_COSTS_nonpos [OF pd]
  have "temperature_impact pd * of_int level \<le> 0"
    using np(1) assms(2) by (simp add: mult_nonpos_nonneg)
  then have lin: "fl (temperature_impact pd * of_int level) \<le> 0"
    by (rule fl_nonpos)
  with np(2) have neg: "max (fl (temperature_impact pd * of_int level)) (max_impact pd) \<le> 0"
    by simp
  have "max_impact pd \<le> max (fl (temperature_impact pd * of_int level)) (max_impact pd)"
    by simp
  with neg have mag: "\<bar>max (fl (temperature_impact pd * of_int level)) (max_impact pd)\<bar>
      \<le> \<bar>max_impact pd\<bar>"
    by linarith
  have tot: "acc_total_temp_mitigation (loop_body pd level s)
       = fl (acc_total_temp_mitigation s
             + max (fl (temperature_impact pd * of_int level)) (max_impact pd))"
    by (simp add: loop_body_total_temp capped_temp_impact_def)
  have bd: "b_temperature_impact (last (acc_policy_breakdown (loop_body pd level s)))
       = round_to_precision (max (fl (temperature_impact pd * of_int level)) (max_impact pd)) 3"
    by (simp add: loop_body_breakdown capped_temp_impact_def)
  from tot bd neg mag show ?thesis
    by blast
qed

theorem capped_temp_impact_saturates_witness:
  "map_of (policy_costs init_engine) ''renewable_energy''
     = Some \<lparr>cost_per_unit = fl (25 / 10), temperature_impact = fl (- 12 / 10000),
         max_impact = fl (- 12 / 100), label = ''Renewable Energy Expansion'',
         description = ''Solar, wind, hydro infrastructure and grid upgrades''\<rparr>
   \<and> (0::int) \<le> 100 \<and> (100::int) \<le> 100
   \<and> \<bar>max (fl (fl (- 12 / 10000) * of_int 100)) (fl (- 12 / 100))\<bar> \<le> \<bar>fl (- 12 / 100)\<bar>"
proof -
  have lookup: "map_of (policy_costs init_engine) ''renewable_energy''
     = Some \<lparr>cost_per_unit = fl (25 / 10), temperature_impact = fl (- 12 / 10000),
         max_impact = fl (- 12 / 100), label = ''Renewable Energy Expansion'',
         description = ''Solar, wind, hydro infrastructure and grid upgrades''\<rparr>"
    by (simp add: init_engine_def POLICY_COSTS_def)
  from capped_temp_impact_saturates [OF lookup, of 100] lookup show ?thesis
    by simp
qed

section \<open>The all-zero input\<close>

lemma impact_loop_all_zero:
  "impact_loop self (map (\<lambda>k. (k, 0)) ks) s = Inr s"
  by (induction ks) simp_all

lemma sanitize_all_zero:
  assumes "\<forall>k\<in>set ks. sanitize_slider_value float_of_str
             (case policy_inputs k of None \<Rightarrow> PyInt 0 | Some v \<Rightarrow> v) = Inr 0"
  shows "sanitize_all float_of_str policy_inputs ks = Inr (map (\<lambda>k. (k, 0)) ks)"
  using assms by (induction ks) simp_all

lemma trend_entry_zero:
  "trend_entry 0 bau_point =
     \<lparr>tr_year = year bau_point,
      tr_anomaly = round_to_precision (anomaly bau_point) 3,
      tr_anomaly_formatted = format_temperature (fl (anomaly bau_point)) 2,
      tr_bau_anomaly = round_to_precision (anomaly bau_point) 3,
      tr_mitigation_applied = 0\<rparr>"
  by (simp add: trend_entry_def Let_def)

text \<open>
  Claim C2: when every lever is at level 0 after sanitisation, \<open>calculate_impacts\<close>
  returns a result with total cost 0, temperature mitigation 0, an empty breakdown, an
  empty treemap and an empty efficiency index.  The trend line has one point per BAU
  point, with that point's year; both its anomaly and its BAU anomaly are the anomaly of
  the BAU point rounded to three decimals, and no mitigation is applied.  With the shipped
  BAU table the rounding changes nothing: the anomalies of the trend line are the
  anomalies of the table.
\<close>

theorem all_zero_input:
  assumes "\<forall>k\<in>set policy_keys. sanitize_slider_value float_of_str
             (case policy_inputs k of None \<Rightarrow> PyInt 0 | Some v \<Rightarrow> v) = Inr 0"
  shows "\<exists>r. calculate_impacts self float_of_str policy_inputs = Inr r
     \<and> total_cost r = 0 \<and> temperature_mitigation r = 0
     \<and> policy_breakdown r = [] \<and> fiscal_treemap r = [] \<and> efficiency_index r = []
     \<and> trend_line r =
         map (\<lambda>p. \<lparr>tr_year = year p,
                   tr_anomaly = round_to_precision (anomaly p) 3,
                   tr_anomaly_formatted = format_temperature (fl (anomaly p)) 2,
                   tr_bau_anomaly = round_to_precision (anomaly p) 3,
                   tr_mitigation_applied = 0\<rparr>) (bau_projection self)
     \<and> (\<forall>p\<in>set (trend_line r). tr_anomaly p = tr_bau_anomaly p \<and> tr_mitigation_applied p = 0)
     \<and> (self = init_engine \<longrightarrow>
          map tr_year (trend_line r) = map year BAU_PROJECTION
          \<and> map tr_anomaly (trend_line r) = map anomaly BAU_PROJECTION
          \<and> map tr_bau_anomaly (trend_line r) = map anomaly BAU_PROJECTION
          \<and> map tr_mitigation_applied (trend_line r) = replicate 25 0)"
proof -
  let ?zeros = "map (\<lambda>k. (k, 0::int)) policy_keys"
  let ?r = "build_result self ?zeros loop_start"
  let ?entry = "\<lambda>p. \<lparr>tr_year = year p,
                   tr_anomaly = round_to_precision (anomaly p) 3,
                   tr_anomaly_formatted = format_temperature (fl (anomaly p)) 2,
                   tr_bau_anomaly = round_to_precision (anomaly p) 3,
                   tr_mitigation_applied = 0\<rparr>"
  have run: "calculate_impacts self float_of_str policy_inputs = Inr ?r"
    by (simp add: calculate_impacts_def sanitize_all_zero [OF assms] impact_loop_all_zero)
  have "trend_line ?r = map (trend_entry 0) (bau_projection self)"
    by (simp add: build_result_def Let_def loop_start_def generate_trend_line_def)
  also have "trend_entry 0 = ?entry"
    by (rule ext) (rule trend_entry_zero)
  finally have trend: "trend_line ?r = map ?entry (bau_projection self)" .
  have c1: "total_cost ?r = 0" and c2: "temperature_mitigation ?r = 0"
    and c3: "policy_breakdown ?r = []" and c5: "efficiency_index ?r = []"
    by (simp_all add: build_result_def Let_def loop_start_def)
  have c4: "fiscal_treemap ?r = []"
    by (simp add: build_result_def Let_def loop_start_def treemap_percentages_def py_sum_def)
  have c7: "\<forall>p\<in>set (trend_line ?r). tr_anomaly p = tr_bau_anomaly p \<and> tr_mitigation_applied p = 0"
    by (auto simp: trend)
  have c8: "self = init_engine \<longrightarrow>
          map tr_year (trend_line ?r) = map year BAU_PROJECTION
          \<and> map tr_anomaly (trend_line ?r) = map anomaly BAU_PROJECTION
          \<and> map tr_bau_anomaly (trend_line ?r) = map anomaly BAU_PROJECTION
          \<and> map tr_mitigation_applied (trend_line ?r) = replicate 25 0"
  proof
    assume self: "self = init_engine"
    have bau: "bau_projection self = BAU_PROJECTION"
      by (simp add: self init_engine_def)
    have rounded: "map (\<lambda>p. round_to_precision (anomaly p) 3) BAU_PROJECTION
        = map anomaly BAU_PROJECTION"
      by (simp add: BAU_PROJECTION_def num_eval)
    have len: "length BAU_PROJECTION = 25"
      by (simp add: BAU_PROJECTION_def)
    have y: "map tr_year (trend_line ?r) = map year BAU_PROJECTION"
      by (simp add: trend bau o_def)
    have a: "map tr_anomaly (trend_line ?r) = map anomaly BAU_PROJECTION"
      by (simp add: trend bau o_def rounded)
    have b: "map tr_bau_anomaly (trend_line ?r) = map anomaly BAU_PROJECTION"
      by (simp add: trend bau o_def rounded)
    have m: "map tr_mitigation_applied (trend_line ?r) = replicate 25 0"
      by (simp add: trend bau o_def map_replicate_const len)
    from y a b m show "map tr_year (trend_line ?r) = map year BAU_PROJECTION
          \<and> map tr_anomaly (trend_line ?r) = map anomaly BAU_PROJECTION
          \<and> map tr_bau_anomaly (trend_line ?r) = map anomaly BAU_PROJECTION
          \<and> map tr_mitigation_applied (trend_line ?r) = replicate 25 0"
      by blast
  qed
  from run c1 c2 c3 c4 c5 trend c7 c8 show ?thesis
    by blast
qed

theorem all_zero_input_witness:
  "sanitize_slider_value (\<lambda>_. None) (PyInt 0) = Inr 0
   \<and> (case calculate_impacts init_engine (\<lambda>_. None) Map.empty of
        Inl e \<Rightarrow> False
      | Inr r \<Rightarrow> total_cost r = 0 \<and> temperature_mitigation r = 0
          \<and> policy_breakdown r = [] \<and> fiscal_treemap r = [] \<and> efficiency_index r = []
          \<and> length (trend_line r) = 25
          \<and> map tr_year (trend_line r) = map year BAU_PROJECTION
          \<and> map tr_anomaly (trend_line r) = map anomaly BAU_PROJECTION
          \<and> map tr_bau_anomaly (trend_line r) = map anomaly BAU_PROJECTION
          \<and> map tr_mitigation_applied (trend_line r) = replicate 25 0)"
proof -
  have z: "sanitize_slider_value (\<lambda>_. None) (PyInt 0) = Inr 0"
    by (simp add: sanitize_slider_value_def py_float_def py_int_def)
  then have h: "\<forall>k\<in>set policy_keys. sanitize_slider_value (\<lambda>_. None)
       (case Map.empty k of None \<Rightarrow> PyInt 0 | Some v \<Rightarrow> v) = Inr 0"
    by simp
  from all_zero_input [OF h, of init_engine] obtain r where
    run: "calculate_impacts init_engine (\<lambda>_. None) Map.empty = Inr r"
    and r: "total_cost r = 0" "temperature_mitigation r = 0"
      "policy_breakdown r = []" "fiscal_treemap r = []" "efficiency_index r = []"
    and t: "map tr_year (trend_line r) = map year BAU_PROJECTION"
      "map tr_anomaly (trend_line r) = map anomaly BAU_PROJECTION"
      "map tr_bau_anomaly (trend_line r) = map anomaly BAU_PROJECTION"
      "map tr_mitigation_applied (trend_line r) = replicate 25 0"
    by (elim exE conjE) simp
  from t(4) have "length (map tr_mitigation_applied (trend_line r)) = 25"
    by simp
  then have len: "length (trend_line r) = 25"
    by simp
  from z r t len show ?thesis
    by (simp only: run sum.case simp_thms)
qed

section \<open>The bound on the total cost\<close>

lemma impact_loop_step:
  assumes "map_of (policy_costs self) policy_key = Some pd"
  shows "impact_loop self ((policy_key, level) # rest) s
       = impact_loop self rest (if level = 0 then s else loop_body pd level s)"
  using assms by simp

lemma step_cost_bound:
  assumes "acc_total_cost s \<le> B" and "0 \<le> level" and "level \<le> 100"
    and "0 \<le> cost_per_unit pd"
    and "B \<le> B'" and "fl (B + fl (cost_per_unit pd * 100)) \<le> B'"
  shows "acc_total_cost (if level = 0 then s else loop_body pd level s) \<le> B'"
proof (cases "level = 0")
  case True
  with assms(1,5) show ?thesis by simp
next
  case False
  have "cost_per_unit pd * of_int level \<le> cost_per_unit pd * 100"
    using assms(3,4) by (intro mult_left_mono) simp_all
  then have "fl (cost_per_unit pd * of_int level) \<le> fl (cost_per_unit pd * 100)"
    by (rule fl_mono)
  with assms(1) have "acc_total_cost s + fl (cost_per_unit pd * of_int level)
      \<le> B + fl (cost_per_unit pd * 100)"
    by (rule add_mono)
  then have "fl (acc_total_cost s + fl (cost_per_unit pd * of_int level))
      \<le> fl (B + fl (cost_per_unit pd * 100))"
    by (rule fl_mono)
  with assms(6) False show ?thesis
    by (simp add: loop_body_total_cost)
qed

lemma step_revenue_bound:
  assumes "acc_total_cost s \<le> B" and "0 \<le> level"
    and "cost_per_unit pd \<le> 0"
    and "B \<le> B'" and "fl B \<le> B'"
  shows "acc_total_cost (if level = 0 then s else loop_body pd level s) \<le> B'"
proof (cases "level = 0")
  case True
  with assms(1,4) show ?thesis by simp
next
  case False
  have "cost_per_unit pd * of_int level \<le> 0"
    using assms(2,3) by (simp add: mult_nonpos_nonneg)
  then have "fl (cost_per_unit pd * of_int level) \<le> 0"
    by (rule fl_nonpos)
  with assms(1) have "acc_total_cost s + fl (cost_per_unit pd * of_int level) \<le> B"
    by simp
  then have "fl (acc_total_cost s + fl (cost_per_unit pd * of_int level)) \<le> fl B"
    by (rule fl_mono)
  with assms(5) False show ?thesis
    by (simp add: loop_body_total_cost)
qed

lemma sanitize_all_levels:
  assumes "sanitize_all float_of_str policy_inputs ks = Inr policies"
  shows "map fst policies = ks \<and> (\<forall>l\<in>set (map snd policies). 0 \<le> l \<and> l \<le> 100)"
  using assms
proof (induction ks arbitrary: policies)
  case Nil
  then show ?case by simp
next
  case (Cons k ks)
  from Cons.prems obtain level rest where
    level: "sanitize_slider_value float_of_str
        (case policy_inputs k of None \<Rightarrow> PyInt 0 | Some v \<Rightarrow> v) = Inr level"
    and rest: "sanitize_all float_of_str policy_inputs ks = Inr rest"
    and policies: "policies = (k, level) # rest"
    by (auto split: sum.splits)
  from sanitize_slider_value_range [OF level] Cons.IH [OF rest] policies show ?case
    by simp
qed

lemma list8:
  assumes "map fst ps = [k1, k2, k3, k4, k5, k6, k7, k8]"
  obtains l1 l2 l3 l4 l5 l6 l7 l8 where
    "ps = [(k1, l1), (k2, l2), (k3, l3), (k4, l4), (k5, l5), (k6, l6), (k7, l7), (k8, l8)]"
proof -
  from assms have "length (map fst ps) = length [k1, k2, k3, k4, k5, k6, k7, k8]"
    by simp
  then have "length ps = 8"
    by simp
  then obtain p1 p2 p3 p4 p5 p6 p7 p8 where "ps = [p1, p2, p3, p4, p5, p6, p7, p8]"
    by (auto simp: length_Suc_conv eval_nat_numeral)
  with assms that show ?thesis
    by (cases p1, cases p2, cases p3, cases p4, cases p5, cases p6, cases p7, cases p8) auto
qed

lemma policy_lookup:
  "policy_key \<in> set policy_keys \<Longrightarrow>
   map_of (policy_costs init_engine) policy_key = Some (the (map_of POLICY_COSTS policy_key))"
  by (auto simp: policy_keys_def init_engine_def POLICY_COSTS_def)

lemma cost_per_unit_table:
  "cost_per_unit (the (map_of POLICY_COSTS ''ev_adoption'')) = fl (12 / 10)"
  "cost_per_unit (the (map_of POLICY_COSTS ''renewable_energy'')) = fl (25 / 10)"
  "cost_per_unit (the (map_of POLICY_COSTS ''carbon_tax'')) = fl (- 8 / 10)"
  "cost_per_unit (the (map_of POLICY_COSTS ''reforestation'')) = fl (6 / 10)"
  "cost_per_unit (the (map_of POLICY_COSTS ''public_transport'')) = fl (18 / 10)"
  "cost_per_unit (the (map_of POLICY_COSTS ''industrial_controls'')) = fl (15 / 10)"
  "cost_per_unit (the (map_of POLICY_COSTS ''green_buildings'')) = fl (10 / 10)"
  "cost_per_unit (the (map_of POLICY_COSTS ''waste_management'')) = fl (8 / 10)"
  by (simp_all add: POLICY_COSTS_def)

lemma total_cost_bound:
  assumes san: "sanitize_all float_of_str policy_inputs policy_keys = Inr policies"
    and loop: "impact_loop init_engine policies loop_start = Inr s"
  shows "acc_total_cost s \<le> 940"
proof -
  let ?pd = "\<lambda>k. the (map_of POLICY_COSTS k)"
  from sanitize_all_levels [OF san]
  have keys: "map fst policies = policy_keys"
    and rng: "\<forall>l\<in>set (map snd policies). 0 \<le> l \<and> l \<le> 100"
    by simp_all
  from keys obtain l1 l2 l3 l4 l5 l6 l7 l8 where ps: "policies =
      [(''ev_adoption'', l1), (''renewable_energy'', l2), (''carbon_tax'', l3),
       (''reforestation'', l4), (''public_transport'', l5), (''industrial_controls'', l6),
       (''green_buildings'', l7), (''waste_management'', l8)]"
    unfolding policy_keys_def by (rule list8)
  from rng have l: "0 \<le> l1" "l1 \<le> 100" "0 \<le> l2" "l2 \<le> 100" "0 \<le> l3" "l3 \<le> 100"
      "0 \<le> l4" "l4 \<le> 100" "0 \<le> l5" "l5 \<le> 100" "0 \<le> l6" "l6 \<le> 100"
      "0 \<le> l7" "l7 \<le> 100" "0 \<le> l8" "l8 \<le> 100"
    by (simp_all add: ps)
  define s1 where "s1 = (if l1 = 0 then loop_start else loop_body (?pd ''ev_adoption'') l1 loop_start)"
  define s2 where "s2 = (if l2 = 0 then s1 else loop_body (?pd ''renewable_energy'') l2 s1)"
  define s3 where "s3 = (if l3 = 0 then s2 else loop_body (?pd ''carbon_tax'') l3 s2)"
  define s4 where "s4 = (if l4 = 0 then s3 else loop_body (?pd ''reforestation'') l4 s3)"
  define s5 where "s5 = (if l5 = 0 then s4 else loop_body (?pd ''public_transport'') l5 s4)"
  define s6 where "s6 = (if l6 = 0 then s5 else loop_body (?pd ''industrial_controls'') l6 s5)"
  define s7 where "s7 = (if l7 = 0 then s6 else loop_body (?pd ''green_buildings'') l7 s6)"
  define s8 where "s8 = (if l8 = 0 then s7 else loop_body (?pd ''waste_management'') l8 s7)"
  have lk: "map_of (policy_costs init_engine) k = Some (?pd k)" if "k \<in> set policy_keys" for k
    using that by (rule policy_lookup)
  have "impact_loop init_engine policies loop_start
      = impact_loop init_engine
          [(''renewable_energy'', l2), (''carbon_tax'', l3),
           (''reforestation'', l4), (''public_transport'', l5), (''industrial_controls'', l6),
           (''green_buildings'', l7), (''waste_management'', l8)] s1"
    unfolding ps s1_def by (rule impact_loop_step [OF lk]) (simp add: policy_keys_def)
  also have "\<dots> = impact_loop init_engine
          [(''carbon_tax'', l3),
           (''reforestation'', l4), (''public_transport'', l5), (''industrial_controls'', l6),
           (''green_buildings'', l7), (''waste_management'', l8)] s2"
    unfolding s2_def by (rule impact_loop_step [OF lk]) (simp add: policy_keys_def)
  also have "\<dots> = impact_loop init_engine
          [(''reforestation'', l4), (''public_transport'', l5), (''industrial_controls'', l6),
           (''green_buildings'', l7), (''waste_management'', l8)] s3"
    unfolding s3_def by (rule impact_loop_step [OF lk]) (simp add: policy_keys_def)
  also have "\<dots> = impact_loop init_engine
          [(''public_transport'', l5), (''industrial_controls'', l6),
           (''green_buildings'', l7), (''waste_management'', l8)] s4"
    unfolding s4_def by (rule impact_loop_step [OF lk]) (simp add: policy_keys_def)
  also have "\<dots> = impact_loop init_engine
          [(''industrial_controls'', l6),
           (''green_buildings'', l7), (''waste_management'', l8)] s5"
    unfolding s5_def by (rule impact_loop_step [OF lk]) (simp add: policy_keys_def)
  also have "\<dots> = impact_loop init_engine
          [(''green_buildings'', l7), (''waste_management'', l8)] s6"
    unfolding s6_def by (rule impact_loop_step [OF lk]) (simp add: policy_keys_def)
  also have "\<dots> = impact_loop init_engine [(''waste_management'', l8)] s7"
    unfolding s7_def by (rule impact_loop_step [OF lk]) (simp add: policy_keys_def)
  also have "\<dots> = impact_loop init_engine [] s8"
    unfolding s8_def by (rule impact_loop_step [OF lk]) (simp add: policy_keys_def)
  finally have "impact_loop init_engine policies loop_start = Inr s8"
    by simp
  with loop have s: "s = s8"
    by simp
  have b1: "acc_total_cost s1 \<le> 120"
    unfolding s1_def
    by (rule step_cost_bound [where B = 0]) (simp_all add: l loop_start_def cost_per_unit_table num_eval)
  have b2: "acc_total_cost s2 \<le> 370"
    unfolding s2_def
    by (rule step_cost_bound [OF b1]) (simp_all add: l cost_per_unit_table num_eval)
  have b3: "acc_total_cost s3 \<le> 370"
    unfolding s3_def
    by (rule step_revenue_bound [OF b2]) (simp_all add: l cost_per_unit_table num_eval)
  have b4: "acc_total_cost s4 \<le> 430"
    unfolding s4_def
    by (rule step_cost_bound [OF b3]) (simp_all add: l cost_per_unit_table num_eval)
  have b5: "acc_total_cost s5 \<le> 610"
    unfolding s5_def
    by (rule step_cost_bound [OF b4]) (simp_all add: l cost_per_unit_table num_eval)
  have b6: "acc_total_cost s6 \<le> 760"
    unfolding s6_def
    by (rule step_cost_bound [OF b5]) (simp_all add: l cost_per_unit_table num_eval)
  have b7: "acc_total_cost s7 \<le> 860"
    unfolding s7_def
    by (rule step_cost_bound [OF b6]) (simp_all add: l cost_per_unit_table num_eval)
  have b8: "acc_total_cost s8 \<le> 940"
    unfolding s8_def
    by (rule step_cost_bound [OF b7]) (simp_all add: l cost_per_unit_table num_eval)
  with s show ?thesis
    by simp
qed

text \<open>
  Claim C10: with the shipped tables bankruptcy cannot be reached.  Whatever the inputs,
  if \<open>calculate_impacts\<close> returns, the total cost is at most 940, the sum of the seven
  positive unit costs at level 100 (the carbon tax only lowers the total); this is below
  the threshold 1000, so the flag is false and there is no warning message.
\<close>

theorem bankruptcy_unreachable:
  assumes "calculate_impacts init_engine float_of_str policy_inputs = Inr r"
  shows "total_cost r \<le> 940 \<and> \<not> bankruptcy_flag r \<and> warning_message r = None"
proof -
  from calculate_impacts_Inr [OF assms] obtain policies s where
    san: "sanitize_all float_of_str policy_inputs policy_keys = Inr policies"
    and loop: "impact_loop init_engine policies loop_start = Inr s"
    and r: "r = build_result init_engine policies s"
    by blast
  from total_cost_bound [OF san loop] have le: "acc_total_cost s \<le> 940" .
  have "round_to_precision (acc_total_cost s) 2 \<le> round_to_precision 940 2"
    using le by (rule round_to_precision_mono)
  also have "round_to_precision 940 2 = 940"
    by (simp add: num_eval)
  finally have c1: "total_cost r \<le> 940"
    by (simp add: r build_result_def Let_def)
  from le have c2: "\<not> bankruptcy_flag r" and c3: "warning_message r = None"
    by (simp_all add: r build_result_def Let_def BANKRUPTCY_THRESHOLD_def)
  from c1 c2 c3 show ?thesis
    by blast
qed

theorem bankruptcy_unreachable_witness:
  "calculate_impacts init_engine (\<lambda>_. None) Map.empty
     = Inr (build_result init_engine (base_policies BASELINE_2026) loop_start)
   \<and> total_cost (build_result init_engine (base_policies BASELINE_2026) loop_start) \<le> 940
   \<and> \<not> bankruptcy_flag (build_result init_engine (base_policies BASELINE_2026) loop_start)
   \<and> warning_message (build_result init_engine (base_policies BASELINE_2026) loop_start) = None"
proof -
  have run: "calculate_impacts init_engine (\<lambda>_. None) Map.empty
     = Inr (build_result init_engine (base_policies BASELINE_2026) loop_start)"
    by (simp add: calculate_impacts_def sanitize_all_absent) (simp add: BASELINE_2026_def)
  from bankruptcy_unreachable [OF run] run show ?thesis
    by simp
qed

section \<open>The bankruptcy flag\<close>

lemma sanitize_slider_value_PyInt:
  assumes "fl (of_int n) = of_int n" and "0 \<le> n" and "n \<le> 100"
  shows "sanitize_slider_value float_of_str (PyInt n) = Inr n"
proof -
  have "\<bar>of_int n :: real\<bar> \<le> 100"
    using assms(2,3) by simp
  also have "(100::real) < 2 ^ 1024"
    by simp
  finally have "\<not> 2 ^ 1024 \<le> \<bar>fl (of_int n)\<bar>"
    by (simp add: assms(1))
  then show ?thesis
    using assms by (simp add: sanitize_slider_value_def py_float_def py_int_def)
qed

lemma fl_small_ints:
  "fl 10 = 10" "fl 20 = 20" "fl 40 = 40" "fl 50 = 50" "fl 90 = 90" "fl 100 = 100"
  by (simp_all add: num_eval)

lemma sanitize_slider_value_examples:
  "sanitize_slider_value float_of_str (PyInt 0) = Inr 0"
  "sanitize_slider_value float_of_str (PyInt 10) = Inr 10"
  "sanitize_slider_value float_of_str (PyInt 20) = Inr 20"
  "sanitize_slider_value float_of_str (PyInt 40) = Inr 40"
  "sanitize_slider_value float_of_str (PyInt 50) = Inr 50"
  "sanitize_slider_value float_of_str (PyInt 90) = Inr 90"
  "sanitize_slider_value float_of_str (PyInt 100) = Inr 100"
  by (rule sanitize_slider_value_PyInt; simp add: fl_small_ints)+

lemma sanitize_all_ev_adoption_100:
  "sanitize_all float_of_str [''ev_adoption'' \<mapsto> PyInt 100] policy_keys =
     Inr [(''ev_adoption'', 100), (''renewable_energy'', 0), (''carbon_tax'', 0),
          (''reforestation'', 0), (''public_transport'', 0), (''industrial_controls'', 0),
          (''green_buildings'', 0), (''waste_management'', 0)]"
  by (simp add: policy_keys_def sanitize_slider_value_examples)

lemma build_result_flag:
  "policies_applied (build_result self policies s) = policies"
  "national_debt (build_result self policies s) = round_to_precision (acc_total_cost s) 2"
  "total_cost (build_result self policies s) = round_to_precision (acc_total_cost s) 2"
  "bankruptcy_flag (build_result self policies s) \<longleftrightarrow> 1000 < acc_total_cost s"
  "warning_message (build_result self policies s) =
     (if 1000 < acc_total_cost s then Some ''ECONOMIC COLLAPSE IMMINENT'' else None)"
  by (simp_all add: build_result_def Let_def BANKRUPTCY_THRESHOLD_def)

text \<open>
  Claim C5: \<open>national_debt\<close> is \<open>total_cost\<close>, and \<open>bankruptcy_flag\<close> is true exactly when
  the debt strictly exceeds the threshold 1000.  The comparison is made on the total the
  loop has accumulated, for the sanitised levels the result reports; the \<open>national_debt\<close>
  and \<open>total_cost\<close> of the result are that total rounded to two decimals.  So a returned debt
  above 1000 always comes with the flag, a set flag always with a returned debt of at least
  1000, a total of exactly 1000 gives false, and a total of 1000.01 gives true with a
  returned debt of 1000.01.  With the shipped tables the flag is true exactly when the
  returned debt exceeds 1000.  The warning message is the fixed string when the flag is
  set and \<open>None\<close> otherwise.
\<close>

theorem bankruptcy_flag_threshold:
  assumes "calculate_impacts self float_of_str policy_inputs = Inr r"
  shows "\<exists>s. impact_loop self (policies_applied r) loop_start = Inr s
     \<and> total_cost r = round_to_precision (acc_total_cost s) 2
     \<and> national_debt r = total_cost r
     \<and> (bankruptcy_flag r \<longleftrightarrow> 1000 < acc_total_cost s)
     \<and> (1000 < national_debt r \<longrightarrow> bankruptcy_flag r)
     \<and> (bankruptcy_flag r \<longrightarrow> 1000 \<le> national_debt r)
     \<and> (acc_total_cost s = 1000 \<longrightarrow> \<not> bankruptcy_flag r \<and> national_debt r = 1000)
     \<and> (acc_total_cost s = fl (100001 / 100) \<longrightarrow>
          bankruptcy_flag r \<and> national_debt r = fl (100001 / 100))
     \<and> (self = init_engine \<longrightarrow> (bankruptcy_flag r \<longleftrightarrow> 1000 < national_debt r))
     \<and> warning_message r =
         (if bankruptcy_flag r then Some ''ECONOMIC COLLAPSE IMMINENT'' else None)"
proof -
  from calculate_impacts_Inr [OF assms] obtain policies s where
    san: "sanitize_all float_of_str policy_inputs policy_keys = Inr policies"
    and loop: "impact_loop self policies loop_start = Inr s"
    and r: "r = build_result self policies s"
    by blast
  have r1000: "round_to_precision 1000 2 = 1000"
    by (simp add: num_eval)
  have r100001: "round_to_precision (100001 / 100) 2 = fl (100001 / 100)"
    by (simp add: num_eval)
  have above: "(1000::real) < fl (100001 / 100)"
    by (simp add: num_eval)
  have c0: "impact_loop self (policies_applied r) loop_start = Inr s"
    by (simp add: r build_result_flag loop)
  have c1: "total_cost r = round_to_precision (acc_total_cost s) 2"
    by (simp add: r build_result_flag)
  have c2: "national_debt r = total_cost r"
    by (simp add: r build_result_flag)
  have c3: "bankruptcy_flag r \<longleftrightarrow> 1000 < acc_total_cost s"
    by (simp add: r build_result_flag)
  have c4: "1000 < national_debt r \<longrightarrow> bankruptcy_flag r"
  proof (rule impI, rule ccontr)
    assume gt: "1000 < national_debt r" and "\<not> bankruptcy_flag r"
    then have "acc_total_cost s \<le> 1000"
      by (simp add: c3)
    then have "round_to_precision (acc_total_cost s) 2 \<le> round_to_precision 1000 2"
      by (rule round_to_precision_mono)
    with gt show False
      by (simp add: c1 c2 r1000)
  qed
  have c5: "bankruptcy_flag r \<longrightarrow> 1000 \<le> national_debt r"
  proof
    assume "bankruptcy_flag r"
    then have "1000 \<le> acc_total_cost s"
      by (simp add: c3)
    then have "round_to_precision 1000 2 \<le> round_to_precision (acc_total_cost s) 2"
      by (rule round_to_precision_mono)
    then show "1000 \<le> national_debt r"
      by (simp add: c1 c2 r1000)
  qed
  have c6: "acc_total_cost s = 1000 \<longrightarrow> \<not> bankruptcy_flag r \<and> national_debt r = 1000"
    by (simp add: c1 c2 c3 r1000)
  have c7: "acc_total_cost s = fl (100001 / 100) \<longrightarrow>
      bankruptcy_flag r \<and> national_debt r = fl (100001 / 100)"
    using above by (simp add: c1 c2 c3 r100001)
  have c8: "self = init_engine \<longrightarrow> (bankruptcy_flag r \<longleftrightarrow> 1000 < national_debt r)"
  proof
    assume self: "self = init_engine"
    from total_cost_bound [OF san loop [unfolded self]] have le: "acc_total_cost s \<le> 940" .
    then have "\<not> bankruptcy_flag r"
      by (simp add: c3)
    with c4 show "bankruptcy_flag r \<longleftrightarrow> 1000 < national_debt r"
      by blast
  qed
  have c9: "warning_message r =
      (if bankruptcy_flag r then Some ''ECONOMIC COLLAPSE IMMINENT'' else None)"
    by (simp add: r build_result_flag)
  from c0 c1 c2 c3 c4 c5 c6 c7 c8 c9 show ?thesis
    by blast
qed

theorem bankruptcy_flag_threshold_witness:
  "(case calculate_impacts
           (init_engine\<lparr>policy_costs :=
              (''ev_adoption'', (the (map_of POLICY_COSTS ''ev_adoption''))
                 \<lparr>cost_per_unit := fl (100001 / 10000)\<rparr>) # POLICY_COSTS\<rparr>)
           (\<lambda>_. None) [''ev_adoption'' \<mapsto> PyInt 100] of
      Inl e \<Rightarrow> False
    | Inr r \<Rightarrow> bankruptcy_flag r \<and> national_debt r = fl (100001 / 100)
        \<and> total_cost r = fl (100001 / 100)
        \<and> warning_message r = Some ''ECONOMIC COLLAPSE IMMINENT'')
   \<and> (case calculate_impacts
           (init_engine\<lparr>policy_costs :=
              (''ev_adoption'', (the (map_of POLICY_COSTS ''ev_adoption''))
                 \<lparr>cost_per_unit := 10\<rparr>) # POLICY_COSTS\<rparr>)
           (\<lambda>_. None) [''ev_adoption'' \<mapsto> PyInt 100] of
      Inl e \<Rightarrow> False
    | Inr r \<Rightarrow> \<not> bankruptcy_flag r \<and> national_debt r = 1000 \<and> total_cost r = 1000
        \<and> warning_message r = None)
   \<and> (case calculate_impacts init_engine (\<lambda>_. None) [''ev_adoption'' \<mapsto> PyInt 100] of
      Inl e \<Rightarrow> False
    | Inr r \<Rightarrow> \<not> bankruptcy_flag r \<and> \<not> 1000 < national_debt r \<and> national_debt r = total_cost r
        \<and> warning_message r = None)"
proof -
  let ?pols = "[(''ev_adoption'', 100), (''renewable_energy'', 0), (''carbon_tax'', 0),
          (''reforestation'', 0), (''public_transport'', 0), (''industrial_controls'', 0),
          (''green_buildings'', 0), (''waste_management'', 0)] :: (string \<times> int) list"
  have flagged: "bankruptcy_flag r \<and> national_debt r = fl (100001 / 100)
        \<and> total_cost r = fl (100001 / 100)
        \<and> warning_message r = Some ''ECONOMIC COLLAPSE IMMINENT''"
    if run: "calculate_impacts self (\<lambda>_. None) [''ev_adoption'' \<mapsto> PyInt 100] = Inr r"
      and loop: "impact_loop self ?pols loop_start = Inr s"
      and cost: "acc_total_cost s = fl (100001 / 100)" for self r s
  proof -
    from calculate_impacts_Inr [OF run] have "policies_applied r = ?pols"
      by (auto simp: sanitize_all_ev_adoption_100 build_result_flag)
    with bankruptcy_flag_threshold [OF run] loop cost show ?thesis
      by auto
  qed
  have unflagged: "\<not> bankruptcy_flag r \<and> national_debt r = 1000 \<and> total_cost r = 1000
        \<and> warning_message r = None"
    if run: "calculate_impacts self (\<lambda>_. None) [''ev_adoption'' \<mapsto> PyInt 100] = Inr r"
      and loop: "impact_loop self ?pols loop_start = Inr s"
      and cost: "acc_total_cost s = 1000" for self r s
  proof -
    from calculate_impacts_Inr [OF run] have "policies_applied r = ?pols"
      by (auto simp: sanitize_all_ev_adoption_100 build_result_flag)
    with bankruptcy_flag_threshold [OF run] loop cost show ?thesis
      by auto
  qed
  have shipped: "\<not> bankruptcy_flag r \<and> \<not> 1000 < national_debt r \<and> national_debt r = total_cost r
        \<and> warning_message r = None"
    if run: "calculate_impacts init_engine (\<lambda>_. None) [''ev_adoption'' \<mapsto> PyInt 100] = Inr r"
      and loop: "impact_loop init_engine ?pols loop_start = Inr s"
      and cost: "acc_total_cost s = 120" for r s
  proof -
    from calculate_impacts_Inr [OF run] have "policies_applied r = ?pols"
      by (auto simp: sanitize_all_ev_adoption_100 build_result_flag)
    with bankruptcy_flag_threshold [OF run] loop cost show ?thesis
      by auto
  qed
  let ?E1 = "init_engine\<lparr>policy_costs :=
              (''ev_adoption'', (the (map_of POLICY_COSTS ''ev_adoption''))
                 \<lparr>cost_per_unit := fl (100001 / 10000)\<rparr>) # POLICY_COSTS\<rparr>"
  let ?pd1 = "(the (map_of POLICY_COSTS ''ev_adoption''))\<lparr>cost_per_unit := fl (100001 / 10000)\<rparr>"
  let ?E0 = "init_engine\<lparr>policy_costs :=
              (''ev_adoption'', (the (map_of POLICY_COSTS ''ev_adoption''))
                 \<lparr>cost_per_unit := 10\<rparr>) # POLICY_COSTS\<rparr>"
  let ?pd0 = "(the (map_of POLICY_COSTS ''ev_adoption''))\<lparr>cost_per_unit := 10\<rparr>"
  let ?pd2 = "the (map_of POLICY_COSTS ''ev_adoption'')"
  have loop1: "impact_loop ?E1 ?pols loop_start = Inr (loop_body ?pd1 100 loop_start)"
    by simp
  have loop0: "impact_loop ?E0 ?pols loop_start = Inr (loop_body ?pd0 100 loop_start)"
    by simp
  have loop2: "impact_loop init_engine ?pols loop_start = Inr (loop_body ?pd2 100 loop_start)"
    by (simp add: init_engine_def POLICY_COSTS_def)
  have cost1: "acc_total_cost (loop_body ?pd1 100 loop_start) = fl (100001 / 100)"
    by (simp add: loop_body_total_cost loop_start_def num_eval)
  have cost0: "acc_total_cost (loop_body ?pd0 100 loop_start) = 1000"
    by (simp add: loop_body_total_cost loop_start_def num_eval)
  have cost2: "acc_total_cost (loop_body ?pd2 100 loop_start) = 120"
    by (simp add: loop_body_total_cost loop_start_def cost_per_unit_table num_eval)
  have run1: "calculate_impacts ?E1 (\<lambda>_. None) [''ev_adoption'' \<mapsto> PyInt 100]
      = Inr (build_result ?E1 ?pols (loop_body ?pd1 100 loop_start))"
    by (simp only: calculate_impacts_def sanitize_all_ev_adoption_100 loop1 sum.case)
  have run0: "calculate_impacts ?E0 (\<lambda>_. None) [''ev_adoption'' \<mapsto> PyInt 100]
      = Inr (build_result ?E0 ?pols (loop_body ?pd0 100 loop_start))"
    by (simp only: calculate_impacts_def sanitize_all_ev_adoption_100 loop0 sum.case)
  have run2: "calculate_impacts init_engine (\<lambda>_. None) [''ev_adoption'' \<mapsto> PyInt 100]
      = Inr (build_result init_engine ?pols (loop_body ?pd2 100 loop_start))"
    by (simp only: calculate_impacts_def sanitize_all_ev_adoption_100 loop2 sum.case)
  from flagged [OF run1 loop1 cost1] unflagged [OF run0 loop0 cost0] shipped [OF run2 loop2 cost2]
  show ?thesis
    by (simp only: run1 run0 run2 sum.case) simp
qed

section \<open>Worked examples\<close>

lemma build_result_fields:
  "total_cost_formatted (build_result self policies s) = format_currency (acc_total_cost s)"
  "temperature_mitigation (build_result self policies s)
     = round_to_precision (acc_total_temp_mitigation s) 3"
  "temperature_mitigation_formatted (build_result self policies s)
     = format_temperature (acc_total_temp_mitigation s) 3"
  "policy_breakdown (build_result self policies s) = acc_policy_breakdown s"
  "trend_line (build_result self policies s)
     = map (trend_entry (acc_total_temp_mitigation s)) (bau_projection self)"
  "fiscal_treemap (build_result self policies s) = treemap_percentages (acc_fiscal_treemap s)"
  "efficiency_index (build_result self policies s) = acc_efficiency_metrics s"
  by (simp_all add: build_result_def Let_def generate_trend_line_def)

lemma trend_entry_fields:
  "tr_year (trend_entry total_mitigation bau_point) = year bau_point"
  "tr_mitigation_applied (trend_entry total_mitigation bau_point)
     = round_to_precision
         (fl (total_mitigation * min 1 (fl (of_int (year bau_point - 2026) / 9)))) 3"
  by (simp_all add: trend_entry_def Let_def)

lemma trend_line_at_year:
  "[p \<leftarrow> map (trend_entry tm) bau. tr_year p = y]
     = map (trend_entry tm) [bp \<leftarrow> bau. year bp = y]"
  by (induction bau) (simp_all add: trend_entry_fields)

lemma loop_body_treemap:
  "acc_fiscal_treemap (loop_body pd level s) = acc_fiscal_treemap s @
     (if 0 < fl (cost_per_unit pd * of_int level)
      then [\<lparr>t_name = label pd,
             t_value = round_to_precision (fl (cost_per_unit pd * of_int level)) 2,
             t_formatted = format_currency (fl (cost_per_unit pd * of_int level)),
             t_percentage = 0\<rparr>]
      else [])"
  by (simp add: loop_body_def Let_def)

lemma loop_body_efficiency:
  "acc_efficiency_metrics (loop_body pd level s) = acc_efficiency_metrics s @
     [\<lparr>e_policy = label pd,
       e_efficiency = calculate_efficiency_index (capped_temp_impact pd level)
                        (fl (cost_per_unit pd * of_int level)),
       e_interpretation = interpret_efficiency
          (calculate_efficiency_index (capped_temp_impact pd level)
             (fl (cost_per_unit pd * of_int level)))\<rparr>]"
  by (simp add: loop_body_def Let_def)

lemmas loop_body_fields = loop_body_total_cost loop_body_total_temp loop_body_breakdown
  loop_body_treemap loop_body_efficiency

lemma treemap_percentages_values:
  "map t_percentage (treemap_percentages tm) =
     (if 0 < py_sum (map t_value tm) then percentages_of (py_sum (map t_value tm)) (map t_value tm)
      else map t_percentage tm)"
proof -
  have "map t_percentage (map (set_percentage T) xs) = percentages_of T (map t_value xs)" for T xs
    by (induction xs) (simp_all add: set_percentage_def)
  then show ?thesis
    by (simp add: treemap_percentages_def Let_def)
qed

text \<open>
  Claim C1: with \<open>renewable_energy = 100\<close> and every other lever absent, the total cost is
  250, formatted \<open>$250.00B\<close>; the linear impact \<open>-0.0012 * 100\<close> is the float \<open>-0.12\<close>, equal to
  \<open>max_impact\<close>; the temperature mitigation is \<open>-0.12\<close>, formatted with three decimals; the
  treemap has one entry, at 100 percent; the mitigation applied is \<open>-0.12\<close> in 2035 and
  \<open>-0.053\<close> in 2030, which is \<open>-0.12 * (4 / 9)\<close> rounded to three decimals.
\<close>

theorem renewable_energy_example:
  "\<exists>r. calculate_impacts init_engine float_of_str [''renewable_energy'' \<mapsto> PyInt 100] = Inr r
     \<and> total_cost r = 250 \<and> total_cost_formatted r = ''$250.00B''
     \<and> fl (fl (- 12 / 10000) * 100) = fl (- 12 / 100)
     \<and> temperature_mitigation r = fl (- 12 / 100)
     \<and> temperature_mitigation_formatted r = ''-0.120'' @ [CHR 0xB0] @ ''C''
     \<and> map t_percentage (fiscal_treemap r) = [100]
     \<and> map tr_mitigation_applied [p \<leftarrow> trend_line r. tr_year p = 2035] = [fl (- 12 / 100)]
     \<and> map tr_mitigation_applied [p \<leftarrow> trend_line r. tr_year p = 2030] = [fl (- 53 / 1000)]
     \<and> round_to_precision (fl (fl (- 12 / 100) * fl (4 / 9))) 3 = fl (- 53 / 1000)"
proof -
  define pd where "pd = \<lparr>cost_per_unit = fl (25 / 10), temperature_impact = fl (- 12 / 10000),
         max_impact = fl (- 12 / 100), label = ''Renewable Energy Expansion'',
         description = ''Solar, wind, hydro infrastructure and grid upgrades''\<rparr>"
  define policies :: "(string \<times> int) list" where "policies =
      [(''ev_adoption'', 0), (''renewable_energy'', 100), (''carbon_tax'', 0),
       (''reforestation'', 0), (''public_transport'', 0), (''industrial_controls'', 0),
       (''green_buildings'', 0), (''waste_management'', 0)]"
  define s where "s = loop_body pd 100 loop_start"
  define r where "r = build_result init_engine policies s"
  have san: "sanitize_all float_of_str [''renewable_energy'' \<mapsto> PyInt 100] policy_keys
      = Inr policies"
    by (simp add: policy_keys_def policies_def sanitize_slider_value_examples)
  have loop: "impact_loop init_engine policies loop_start = Inr s"
    by (simp add: policies_def s_def pd_def init_engine_def POLICY_COSTS_def)
  have run: "calculate_impacts init_engine float_of_str [''renewable_energy'' \<mapsto> PyInt 100]
      = Inr r"
    by (simp add: calculate_impacts_def san loop r_def)
  have cost: "acc_total_cost s = 250"
    by (simp add: s_def loop_body_fields pd_def loop_start_def num_eval)
  have lin: "fl (fl (- 12 / 10000) * 100) = fl (- 12 / 100)"
    by (simp add: num_eval)
  have temp: "acc_total_temp_mitigation s = fl (- 12 / 100)"
    by (simp add: s_def loop_body_fields capped_temp_impact_def pd_def loop_start_def num_eval)
  have tm: "map t_value (acc_fiscal_treemap s) = [250]"
    by (simp add: s_def loop_body_fields pd_def loop_start_def num_eval)
  have c1: "total_cost r = 250"
    unfolding r_def build_result_flag cost by (simp add: num_eval)
  have c2: "total_cost_formatted r = ''$250.00B''"
    unfolding r_def build_result_fields cost by (simp add: num_eval fmt_eval)
  have c3: "temperature_mitigation r = fl (- 12 / 100)"
    unfolding r_def build_result_fields temp by (simp add: num_eval)
  have c4: "temperature_mitigation_formatted r = ''-0.120'' @ [CHR 0xB0] @ ''C''"
    unfolding r_def build_result_fields temp by (simp add: num_eval fmt_eval)
  have c5: "map t_percentage (fiscal_treemap r) = [100]"
    unfolding r_def build_result_fields treemap_percentages_values tm
    by (simp add: py_sum_def num_eval)
  have c6: "map tr_mitigation_applied [p \<leftarrow> trend_line r. tr_year p = 2035] = [fl (- 12 / 100)]"
    unfolding r_def build_result_fields temp trend_line_at_year
    by (simp add: init_engine_def BAU_PROJECTION_def trend_entry_fields) (simp add: num_eval)
  have c7: "map tr_mitigation_applied [p \<leftarrow> trend_line r. tr_year p = 2030] = [fl (- 53 / 1000)]"
    unfolding r_def build_result_fields temp trend_line_at_year
    by (simp add: init_engine_def BAU_PROJECTION_def trend_entry_fields) (simp add: num_eval)
  have c8: "round_to_precision (fl (fl (- 12 / 100) * fl (4 / 9))) 3 = fl (- 53 / 1000)"
    by (simp add: num_eval)
  show ?thesis
    by (rule exI [where x = r], intro conjI) (fact run c1 c2 lin c3 c4 c5 c6 c7 c8)+
qed

lemma carbon_tax_run:
  "calculate_impacts init_engine float_of_str [''carbon_tax'' \<mapsto> PyInt 50] =
     Inr (build_result init_engine
       [(''ev_adoption'', 0), (''renewable_energy'', 0), (''carbon_tax'', 50),
        (''reforestation'', 0), (''public_transport'', 0), (''industrial_controls'', 0),
        (''green_buildings'', 0), (''waste_management'', 0)]
       (loop_body (the (map_of POLICY_COSTS ''carbon_tax'')) 50 loop_start))"
proof -
  have "sanitize_all float_of_str [''carbon_tax'' \<mapsto> PyInt 50] policy_keys =
     Inr [(''ev_adoption'', 0), (''renewable_energy'', 0), (''carbon_tax'', 50),
          (''reforestation'', 0), (''public_transport'', 0), (''industrial_controls'', 0),
          (''green_buildings'', 0), (''waste_management'', 0)]"
    by (simp add: policy_keys_def sanitize_slider_value_examples)
  then show ?thesis
    by (simp add: calculate_impacts_def policy_lookup policy_keys_def)
qed

lemma carbon_tax_data:
  "the (map_of POLICY_COSTS ''carbon_tax'') =
     \<lparr>cost_per_unit = fl (- 8 / 10), temperature_impact = fl (- 15 / 10000),
      max_impact = fl (- 15 / 100), label = ''Carbon Tax Implementation'',
      description = ''Industrial emissions pricing and regulatory enforcement''\<rparr>"
  by (simp add: POLICY_COSTS_def)

lemma carbon_tax_efficiency:
  "acc_efficiency_metrics (loop_body (the (map_of POLICY_COSTS ''carbon_tax'')) 50 loop_start) =
     [\<lparr>e_policy = ''Carbon Tax Implementation'', e_efficiency = 75,
       e_interpretation = ''Excellent''\<rparr>]"
  unfolding loop_body_fields carbon_tax_data
  by (simp add: loop_start_def capped_temp_impact_def calculate_efficiency_index_def
        interpret_efficiency_def num_eval)

text \<open>
  Claim C6, with the tier corrected: with \<open>carbon_tax = 50\<close> and every other lever absent,
  the cost of the lever is \<open>-40\<close>, formatted \<open>-$40.00B\<close>; the treemap is empty, the cost not
  being positive; the efficiency entry is computed by the branch for a cost that is not
  positive, \<open>\<bar>-0.0015 * 50\<bar> * 1000 = 75\<close>, and its interpretation is \<open>Excellent\<close>, the tier of
  every efficiency of at least 1.
\<close>

theorem carbon_tax_example:
  "\<exists>r. calculate_impacts init_engine float_of_str [''carbon_tax'' \<mapsto> PyInt 50] = Inr r
     \<and> map b_cost (policy_breakdown r) = [- 40]
     \<and> map b_cost_formatted (policy_breakdown r) = [''-$40.00B'']
     \<and> fiscal_treemap r = []
     \<and> calculate_efficiency_index (fl (fl (- 15 / 10000) * 50)) (- 40)
         = fl (\<bar>fl (fl (- 15 / 10000) * 50)\<bar> * 1000)
     \<and> fl (\<bar>fl (fl (- 15 / 10000) * 50)\<bar> * 1000) = 75
     \<and> interpret_efficiency 75 = ''Excellent''
     \<and> efficiency_index r =
         [\<lparr>e_policy = ''Carbon Tax Implementation'', e_efficiency = 75,
           e_interpretation = ''Excellent''\<rparr>]"
proof -
  define s where "s = loop_body (the (map_of POLICY_COSTS ''carbon_tax'')) 50 loop_start"
  define r where "r = build_result init_engine
       [(''ev_adoption'', 0), (''renewable_energy'', 0), (''carbon_tax'', 50),
        (''reforestation'', 0), (''public_transport'', 0), (''industrial_controls'', 0),
        (''green_buildings'', 0), (''waste_management'', 0)] s"
  have run: "calculate_impacts init_engine float_of_str [''carbon_tax'' \<mapsto> PyInt 50] = Inr r"
    unfolding r_def s_def by (rule carbon_tax_run)
  have c1: "map b_cost (policy_breakdown r) = [- 40]"
    unfolding r_def build_result_fields s_def loop_body_fields carbon_tax_data
    by (simp add: loop_start_def num_eval)
  have c2: "map b_cost_formatted (policy_breakdown r) = [''-$40.00B'']"
    unfolding r_def build_result_fields s_def loop_body_fields carbon_tax_data
    by (simp add: loop_start_def num_eval fmt_eval)
  have c3: "fiscal_treemap r = []"
    unfolding r_def build_result_fields s_def loop_body_fields carbon_tax_data
    by (simp add: loop_start_def num_eval treemap_percentages_def py_sum_def)
  have c4: "calculate_efficiency_index (fl (fl (- 15 / 10000) * 50)) (- 40)
         = fl (\<bar>fl (fl (- 15 / 10000) * 50)\<bar> * 1000)"
    by (simp add: calculate_efficiency_index_def)
  have c5: "fl (\<bar>fl (fl (- 15 / 10000) * 50)\<bar> * 1000) = 75"
    by (simp add: num_eval)
  have c6: "interpret_efficiency 75 = ''Excellent''"
    by (simp add: interpret_efficiency_def)
  have c7: "efficiency_index r =
         [\<lparr>e_policy = ''Carbon Tax Implementation'', e_efficiency = 75,
           e_interpretation = ''Excellent''\<rparr>]"
    unfolding r_def build_result_fields s_def by (rule carbon_tax_efficiency)
  show ?thesis
    by (rule exI [where x = r], intro conjI) (fact run c1 c2 c3 c4 c5 c6 c7)+
qed

text \<open>
  The tier that claim C6 names, \<open>Good\<close>, is not the one the call returns.
\<close>

theorem carbon_tax_tier_counterexample:
  "(case calculate_impacts init_engine (\<lambda>_. None) [''carbon_tax'' \<mapsto> PyInt 50] of
      Inl e \<Rightarrow> [] | Inr r \<Rightarrow> map e_interpretation (efficiency_index r)) = [''Excellent'']
   \<and> (case calculate_impacts init_engine (\<lambda>_. None) [''carbon_tax'' \<mapsto> PyInt 50] of
      Inl e \<Rightarrow> [] | Inr r \<Rightarrow> map e_interpretation (efficiency_index r)) \<noteq> [''Good'']"
  by (simp add: carbon_tax_run build_result_fields carbon_tax_efficiency)

section \<open>The percentages of the treemap\<close>

text \<open>
  Each percentage is rounded to one decimal on its own, so the percentages need not sum to
  100.  The distance is bounded through the relative error of the float operations,
  \<open>2\<^sup>-\<^sup>5\<^sup>3\<close> each.  The bound on the sum of the percentages (\<open>percentages_sum_close\<close>) is
  proved for every total within a relative \<open>10\<^sup>-\<^sup>1\<^sup>5\<close> of the exact sum of the values; the
  left-to-right float sum \<open>py_sum\<close> is such a total (\<open>py_sum_accuracy\<close>), and so is the
  result of a compensated summation of the same values.
\<close>

lemma fl_relative:
  assumes "0 \<le> x"
  shows "(1 - 1 / 2 ^ 53) * x \<le> fl x \<and> fl x \<le> (1 + 1 / 2 ^ 53) * x"
proof -
  have "\<bar>fl x - x\<bar> \<le> x / 2 ^ 53"
    using fl_error [of x] assms by simp
  then have "x - fl x \<le> x / 2 ^ 53" and "fl x - x \<le> x / 2 ^ 53"
    by (simp_all only: abs_le_iff minus_diff_eq)
  then show ?thesis
    by (simp add: algebra_simps)
qed

lemma sum_from_bounds:
  fixes u :: real
  assumes fl_u: "\<And>x. 0 \<le> x \<Longrightarrow> (1 - u) * x \<le> fl x \<and> fl x \<le> (1 + u) * x"
    and u: "0 \<le> u" "u \<le> 1"
    and acc: "0 \<le> acc" and xs: "\<forall>x\<in>set xs. 0 \<le> x"
  shows "(1 - u) ^ length xs * (acc + sum_list xs) \<le> sum_from acc xs
       \<and> sum_from acc xs \<le> (1 + u) ^ length xs * (acc + sum_list xs)"
  using acc xs
proof (induction xs arbitrary: acc)
  case Nil
  then show ?case
    by simp
next
  case (Cons x xs)
  let ?a = "fl (acc + x)"
  let ?S = "sum_list xs"
  have ax: "0 \<le> acc + x"
    using Cons.prems by simp
  from fl_u [OF ax] have lo: "(1 - u) * (acc + x) \<le> ?a" and hi: "?a \<le> (1 + u) * (acc + x)"
    by simp_all
  have a0: "0 \<le> ?a"
    using ax by (rule fl_nonneg)
  have S0: "0 \<le> ?S"
    using Cons.prems by (simp add: sum_list_nonneg)
  from Cons.IH [OF a0] Cons.prems
  have IH1: "(1 - u) ^ length xs * (?a + ?S) \<le> sum_from ?a xs"
    and IH2: "sum_from ?a xs \<le> (1 + u) ^ length xs * (?a + ?S)"
    by simp_all
  have "(1 - u) * ?S \<le> ?S"
    using u S0 by (simp add: mult_left_le_one_le)
  with lo have "(1 - u) * (acc + x + ?S) \<le> ?a + ?S"
    by (simp add: distrib_left)
  then have "(1 - u) ^ length xs * ((1 - u) * (acc + x + ?S)) \<le> (1 - u) ^ length xs * (?a + ?S)"
    using u by (intro mult_left_mono) simp_all
  then have L: "(1 - u) ^ length xs * ((1 - u) * (acc + x + ?S)) \<le> sum_from ?a xs"
    using IH1 by (rule order_trans)
  have "?S \<le> (1 + u) * ?S"
    using u S0 by (simp add: mult_le_cancel_right1)
  with hi have "?a + ?S \<le> (1 + u) * (acc + x + ?S)"
    by (simp add: distrib_left)
  then have "(1 + u) ^ length xs * (?a + ?S) \<le> (1 + u) ^ length xs * ((1 + u) * (acc + x + ?S))"
    using u by (intro mult_left_mono) simp_all
  with IH2 have U: "sum_from ?a xs \<le> (1 + u) ^ length xs * ((1 + u) * (acc + x + ?S))"
    by (rule order_trans)
  from L U show ?case
    by (simp add: mult.assoc mult.left_commute add.assoc)
qed

lemma py_sum_accuracy:
  assumes xs: "\<forall>x\<in>set xs. 0 \<le> x" and len: "length xs \<le> 8"
  shows "(1 - 1 / 10 ^ 15) * sum_list xs \<le> py_sum xs
       \<and> py_sum xs \<le> (1 + 1 / 10 ^ 15) * sum_list xs"
proof -
  define u :: real where "u = 1 / 2 ^ 53"
  have u: "0 \<le> u" "u \<le> 1"
    by (simp_all add: u_def)
  have S0: "0 \<le> sum_list xs"
    using xs by (simp add: sum_list_nonneg)
  have fl_u: "\<And>x. 0 \<le> x \<Longrightarrow> (1 - u) * x \<le> fl x \<and> fl x \<le> (1 + u) * x"
    unfolding u_def by (rule fl_relative)
  have "(1 - u) ^ length xs * (0 + sum_list xs) \<le> sum_from 0 xs
       \<and> sum_from 0 xs \<le> (1 + u) ^ length xs * (0 + sum_list xs)"
    by (rule sum_from_bounds [of u 0 xs, OF fl_u u _ xs]) simp_all
  then have lo: "(1 - u) ^ length xs * sum_list xs \<le> py_sum xs"
    and hi: "py_sum xs \<le> (1 + u) ^ length xs * sum_list xs"
    by (simp_all add: py_sum_def)
  have "1 - 1 / 10 ^ 15 \<le> (1 - u) ^ 8"
    by (simp add: u_def power_divide)
  also have "(1 - u) ^ 8 \<le> (1 - u) ^ length xs"
    using u len by (intro power_decreasing) simp_all
  finally have "(1 - 1 / 10 ^ 15) * sum_list xs \<le> (1 - u) ^ length xs * sum_list xs"
    using S0 by (rule mult_right_mono)
  then have L: "(1 - 1 / 10 ^ 15) * sum_list xs \<le> py_sum xs"
    using lo by (rule order_trans)
  have "(1 + u) ^ length xs \<le> (1 + u) ^ 8"
    using u len by (intro power_increasing) simp_all
  also have "(1 + u) ^ 8 \<le> 1 + 1 / 10 ^ 15"
    by (simp add: u_def power_divide)
  finally have "(1 + u) ^ length xs * sum_list xs \<le> (1 + 1 / 10 ^ 15) * sum_list xs"
    using S0 by (rule mult_right_mono)
  with hi have U: "py_sum xs \<le> (1 + 1 / 10 ^ 15) * sum_list xs"
    by (rule order_trans)
  from L U show ?thesis
    by (rule conjI)
qed

lemma percentage_bounds:
  fixes u :: real
  assumes fl_u: "\<And>x. 0 \<le> x \<Longrightarrow> (1 - u) * x \<le> fl x \<and> fl x \<le> (1 + u) * x"
    and u: "0 \<le> u" "u \<le> 1"
    and v: "0 \<le> v" and T: "0 < T"
  shows "(1 - u) * ((1 - u) ^ 2 * (100 * v / T) - 1 / 20)
           \<le> round_to_precision (fl (fl (v / T) * 100)) 1
       \<and> round_to_precision (fl (fl (v / T) * 100)) 1
           \<le> (1 + u) * ((1 + u) ^ 2 * (100 * v / T) + 1 / 20)"
proof -
  define q where "q = fl (v / T)"
  define w where "w = fl (q * 100)"
  define y :: real where "y = of_int (round_half_even (w * 10)) / 10"
  have vT: "0 \<le> v / T"
    using v T by simp
  from fl_u [OF vT] have q: "(1 - u) * (v / T) \<le> q" "q \<le> (1 + u) * (v / T)"
    by (simp_all add: q_def)
  have q0: "0 \<le> q"
    unfolding q_def using vT by (rule fl_nonneg)
  then have q100: "0 \<le> q * 100"
    by simp
  from fl_u [OF q100] have w: "(1 - u) * (q * 100) \<le> w" "w \<le> (1 + u) * (q * 100)"
    by (simp_all add: w_def)
  have w0: "0 \<le> w"
    unfolding w_def using q100 by (rule fl_nonneg)
  have e1: "(1 - u) ^ 2 * (100 * v / T) = (1 - u) * ((1 - u) * (v / T) * 100)"
    by (simp add: power2_eq_square)
  have e2: "(1 + u) ^ 2 * (100 * v / T) = (1 + u) * ((1 + u) * (v / T) * 100)"
    by (simp add: power2_eq_square)
  have "(1 - u) * ((1 - u) * (v / T) * 100) \<le> (1 - u) * (q * 100)"
    using q(1) u by (intro mult_left_mono mult_right_mono) simp_all
  then have wlo: "(1 - u) ^ 2 * (100 * v / T) \<le> w"
    unfolding e1 using w(1) by (rule order_trans)
  have "(1 + u) * (q * 100) \<le> (1 + u) * ((1 + u) * (v / T) * 100)"
    using q(2) u by (intro mult_left_mono mult_right_mono) simp_all
  with w(2) have whi: "w \<le> (1 + u) ^ 2 * (100 * v / T)"
    unfolding e2 by (rule order_trans)
  have "\<bar>of_int (round_half_even (w * 10)) - w * 10\<bar> \<le> 1 / 2"
    by (rule round_half_even_error)
  then have "w * 10 - of_int (round_half_even (w * 10)) \<le> 1 / 2"
    and "of_int (round_half_even (w * 10)) - w * 10 \<le> 1 / 2"
    by (simp_all only: abs_le_iff minus_diff_eq)
  then have y: "w - 1 / 20 \<le> y" "y \<le> w + 1 / 20"
    by (simp_all add: y_def field_simps)
  have "round_half_even 0 \<le> round_half_even (w * 10)"
    using w0 by (intro round_half_even_mono) simp
  then have y0: "0 \<le> y"
    by (simp add: y_def)
  have p: "round_to_precision (fl (fl (v / T) * 100)) 1 = fl y"
    by (simp add: round_to_precision_def py_round_def fl_idem y_def w_def q_def)
  from fl_u [OF y0] have f: "(1 - u) * y \<le> fl y" "fl y \<le> (1 + u) * y"
    by simp_all
  have "(1 - u) * ((1 - u) ^ 2 * (100 * v / T) - 1 / 20) \<le> (1 - u) * y"
    using wlo y(1) u by (intro mult_left_mono) simp_all
  then have L: "(1 - u) * ((1 - u) ^ 2 * (100 * v / T) - 1 / 20) \<le> fl y"
    using f(1) by (rule order_trans)
  have "(1 + u) * y \<le> (1 + u) * ((1 + u) ^ 2 * (100 * v / T) + 1 / 20)"
    using whi y(2) u by (intro mult_left_mono) simp_all
  with f(2) have U: "fl y \<le> (1 + u) * ((1 + u) ^ 2 * (100 * v / T) + 1 / 20)"
    by (rule order_trans)
  from L U show ?thesis
    unfolding p by (rule conjI)
qed

lemma percentages_of_sum_bounds:
  fixes u :: real
  assumes fl_u: "\<And>x. 0 \<le> x \<Longrightarrow> (1 - u) * x \<le> fl x \<and> fl x \<le> (1 + u) * x"
    and u: "0 \<le> u" "u \<le> 1"
    and T: "0 < T" and vs: "\<forall>v\<in>set vs. 0 \<le> v"
  shows "(1 - u) * ((1 - u) ^ 2 * (100 * sum_list vs / T) - real (length vs) / 20)
           \<le> sum_list (percentages_of T vs)
       \<and> sum_list (percentages_of T vs)
           \<le> (1 + u) * ((1 + u) ^ 2 * (100 * sum_list vs / T) + real (length vs) / 20)"
  using vs
proof (induction vs)
  case Nil
  then show ?case
    by simp
next
  case (Cons v vs)
  let ?p = "round_to_precision (fl (fl (v / T) * 100)) 1"
  have v: "0 \<le> v"
    using Cons.prems by simp
  from percentage_bounds [of u, OF fl_u u v T]
  have p1: "(1 - u) * ((1 - u) ^ 2 * (100 * v / T) - 1 / 20) \<le> ?p"
    and p2: "?p \<le> (1 + u) * ((1 + u) ^ 2 * (100 * v / T) + 1 / 20)"
    by simp_all
  from Cons.IH Cons.prems
  have i1: "(1 - u) * ((1 - u) ^ 2 * (100 * sum_list vs / T) - real (length vs) / 20)
           \<le> sum_list (percentages_of T vs)"
    and i2: "sum_list (percentages_of T vs)
           \<le> (1 + u) * ((1 + u) ^ 2 * (100 * sum_list vs / T) + real (length vs) / 20)"
    by simp_all
  have e1: "(1 - u) * ((1 - u) ^ 2 * (100 * sum_list (v # vs) / T) - real (length (v # vs)) / 20)
      = (1 - u) * ((1 - u) ^ 2 * (100 * v / T) - 1 / 20)
        + (1 - u) * ((1 - u) ^ 2 * (100 * sum_list vs / T) - real (length vs) / 20)"
    by (simp add: algebra_simps add_divide_distrib)
  have e2: "(1 + u) * ((1 + u) ^ 2 * (100 * sum_list (v # vs) / T) + real (length (v # vs)) / 20)
      = (1 + u) * ((1 + u) ^ 2 * (100 * v / T) + 1 / 20)
        + (1 + u) * ((1 + u) ^ 2 * (100 * sum_list vs / T) + real (length vs) / 20)"
    by (simp add: algebra_simps add_divide_distrib)
  have s: "sum_list (percentages_of T (v # vs)) = ?p + sum_list (percentages_of T vs)"
    by simp
  show ?case
    unfolding e1 e2 s using p1 p2 i1 i2 by (intro conjI add_mono)
qed

lemma percentages_sum_close:
  assumes T: "0 < T" and vs: "\<forall>v\<in>set vs. 0 \<le> v" and S: "0 < sum_list vs"
    and len: "length vs \<le> 8"
    and lo: "(1 - 1 / 10 ^ 15) * sum_list vs \<le> T"
    and hi: "T \<le> (1 + 1 / 10 ^ 15) * sum_list vs"
  shows "\<bar>sum_list (percentages_of T vs) - 100\<bar> \<le> real (length vs) / 20 + 1 / 1000"
proof -
  define u :: real where "u = 1 / 2 ^ 53"
  define \<rho> where "\<rho> = sum_list vs / T"
  define n where "n = real (length vs)"
  have u: "0 \<le> u" "u \<le> 1"
    by (simp_all add: u_def)
  have fl_u: "\<And>x. 0 \<le> x \<Longrightarrow> (1 - u) * x \<le> fl x \<and> fl x \<le> (1 + u) * x"
    unfolding u_def by (rule fl_relative)
  have n: "0 \<le> n" "n \<le> 8"
    using len by (simp_all add: n_def)
  have \<rho>0: "0 \<le> \<rho>"
    using S T by (simp add: \<rho>_def)
  have "sum_list vs \<le> T * (1 / (1 - 1 / 10 ^ 15))"
    using lo by (simp add: field_simps)
  then have \<rho>hi: "\<rho> \<le> 1 / (1 - 1 / 10 ^ 15)"
    using T by (simp add: \<rho>_def pos_divide_le_eq mult.commute)
  have "T * (1 / (1 + 1 / 10 ^ 15)) \<le> sum_list vs"
    using hi by (simp add: field_simps)
  then have \<rho>lo: "1 / (1 + 1 / 10 ^ 15) \<le> \<rho>"
    using T by (simp add: \<rho>_def pos_le_divide_eq mult.commute)
  have r: "100 * sum_list vs / T = 100 * \<rho>"
    by (simp add: \<rho>_def)
  from percentages_of_sum_bounds [of u T vs, OF fl_u u T vs]
  have b1: "(1 - u) * ((1 - u) ^ 2 * (100 * \<rho>) - n / 20) \<le> sum_list (percentages_of T vs)"
    and b2: "sum_list (percentages_of T vs) \<le> (1 + u) * ((1 + u) ^ 2 * (100 * \<rho>) + n / 20)"
    unfolding r n_def by simp_all
  have "(1 + u) * ((1 + u) ^ 2 * (100 * \<rho>) + n / 20)
      = (1 + u) ^ 3 * 100 * \<rho> + (n / 20 + u * n / 20)"
    by (simp add: power2_eq_square power3_eq_cube algebra_simps)
  also have "\<dots> \<le> (1 + u) ^ 3 * 100 * (1 / (1 - 1 / 10 ^ 15)) + (n / 20 + u * 8 / 20)"
    using \<rho>hi n u by (intro add_mono mult_left_mono divide_right_mono order_refl) simp_all
  also have "\<dots> \<le> (100 + 1 / 2000) + (n / 20 + 1 / 2000)"
    by (intro add_mono order_refl) (simp_all add: u_def power_divide)
  finally have U: "sum_list (percentages_of T vs) - 100 \<le> n / 20 + 1 / 1000"
    using b2 by simp
  have "(100 - 1 / 2000) - (n / 20)
      \<le> (1 - u) ^ 3 * 100 * (1 / (1 + 1 / 10 ^ 15)) - (n / 20)"
    by (intro diff_mono order_refl) (simp add: u_def power_divide)
  also have "\<dots> \<le> (1 - u) ^ 3 * 100 * \<rho> - (1 - u) * (n / 20)"
    using \<rho>lo n u by (intro diff_mono mult_left_mono) (simp_all add: mult_left_le_one_le)
  also have "\<dots> = (1 - u) * ((1 - u) ^ 2 * (100 * \<rho>) - n / 20)"
    by (simp add: power2_eq_square power3_eq_cube right_diff_distrib mult.assoc)
  finally have L: "- (n / 20 + 1 / 1000) \<le> sum_list (percentages_of T vs) - 100"
    using b1 by simp
  from L U show ?thesis
    unfolding n_def by (simp add: abs_le_iff)
qed

lemma treemap_percentages_keeps:
  "map t_name (treemap_percentages tm) = map t_name tm"
  "map t_value (treemap_percentages tm) = map t_value tm"
  "length (treemap_percentages tm) = length tm"
  by (simp_all add: treemap_percentages_def Let_def set_percentage_def comp_def)

lemma impact_loop_treemap:
  assumes "impact_loop self policies s = Inr s'"
  shows "acc_fiscal_treemap s' = acc_fiscal_treemap s @
     map (\<lambda>(policy_key, level).
            \<lparr>t_name = label (the (map_of (policy_costs self) policy_key)),
             t_value = round_to_precision
               (fl (cost_per_unit (the (map_of (policy_costs self) policy_key)) * of_int level)) 2,
             t_formatted = format_currency
               (fl (cost_per_unit (the (map_of (policy_costs self) policy_key)) * of_int level)),
             t_percentage = 0\<rparr>)
       (filter (\<lambda>(policy_key, level). level \<noteq> 0
            \<and> 0 < fl (cost_per_unit (the (map_of (policy_costs self) policy_key)) * of_int level))
          policies)"
  using assms
proof (induction policies arbitrary: s)
  case Nil
  then show ?case
    by simp
next
  case (Cons p policies)
  obtain policy_key level where p: "p = (policy_key, level)"
    by (cases p)
  show ?case
  proof (cases "level = 0")
    case True
    with Cons.prems p have "impact_loop self policies s = Inr s'"
      by simp
    from Cons.IH [OF this] True p show ?thesis
      by simp
  next
    case False
    with Cons.prems p obtain pd where pd: "map_of (policy_costs self) policy_key = Some pd"
      and rest: "impact_loop self policies (loop_body pd level s) = Inr s'"
      by (auto split: option.splits)
    from Cons.IH [OF rest] False p pd show ?thesis
      by (simp add: loop_body_treemap)
  qed
qed

lemma positive_cost_value:
  assumes k: "policy_key \<in> set policy_keys" and level: "1 \<le> level"
    and pos: "0 < fl (cost_per_unit (the (map_of POLICY_COSTS policy_key)) * of_int level)"
  shows "policy_key \<noteq> ''carbon_tax''"
    and "1 / 2 \<le> round_to_precision
           (fl (cost_per_unit (the (map_of POLICY_COSTS policy_key)) * of_int level)) 2"
proof -
  let ?c = "cost_per_unit (the (map_of POLICY_COSTS policy_key))"
  have l1: "(1::real) \<le> of_int level"
    using level by simp
  show ne: "policy_key \<noteq> ''carbon_tax''"
  proof
    assume "policy_key = ''carbon_tax''"
    then have "?c = fl (- 8 / 10)"
      by (simp add: cost_per_unit_table)
    then have "?c \<le> 0"
      by (simp add: fl_nonpos)
    then have "?c * of_int level \<le> 0"
      using l1 by (simp add: mult_nonpos_nonneg)
    then have "fl (?c * of_int level) \<le> 0"
      by (rule fl_nonpos)
    with pos show False
      by simp
  qed
  have half: "fl (1 / 2) = 1 / 2"
    by (simp add: num_eval)
  have "fl (1 / 2) \<le> ?c"
    using k ne by (auto simp: policy_keys_def cost_per_unit_table intro!: fl_mono)
  then have c: "1 / 2 \<le> ?c"
    by (simp add: half)
  then have "1 / 2 * 1 \<le> ?c * of_int level"
    using l1 by (intro mult_mono) simp_all
  then have "1 / 2 \<le> ?c * of_int level"
    by simp
  then have "round_to_precision (1 / 2) 2 \<le> round_to_precision (?c * of_int level) 2"
    by (rule round_to_precision_mono)
  moreover have "round_to_precision (1 / 2) 2 = 1 / 2"
    by (simp add: num_eval)
  ultimately show "1 / 2 \<le> round_to_precision (fl (?c * of_int level)) 2"
    by simp
qed

lemma init_engine_treemap:
  assumes san: "sanitize_all float_of_str policy_inputs policy_keys = Inr policies"
    and loop: "impact_loop init_engine policies loop_start = Inr s"
  shows "\<forall>v\<in>set (map t_value (acc_fiscal_treemap s)). 1 / 2 \<le> v"
    and "length (acc_fiscal_treemap s) \<le> 7"
proof -
  let ?c = "\<lambda>policy_key. cost_per_unit (the (map_of POLICY_COSTS policy_key))"
  let ?P = "\<lambda>(policy_key, level). level \<noteq> 0 \<and> 0 < fl (?c policy_key * of_int level)"
  from sanitize_all_levels [OF san]
  have keys: "map fst policies = policy_keys"
    and levels: "\<forall>l\<in>set (map snd policies). 0 \<le> l \<and> l \<le> 100"
    by simp_all
  from impact_loop_treemap [OF loop]
  have tm: "map t_value (acc_fiscal_treemap s)
      = map (\<lambda>(policy_key, level). round_to_precision (fl (?c policy_key * of_int level)) 2)
          (filter ?P policies)"
    and len: "length (acc_fiscal_treemap s) = length (filter ?P policies)"
    by (simp_all add: loop_start_def init_engine_def comp_def case_prod_unfold)
  have pos: "policy_key \<noteq> ''carbon_tax''
      \<and> 1 / 2 \<le> round_to_precision (fl (?c policy_key * of_int level)) 2"
    if "(policy_key, level) \<in> set policies" and "?P (policy_key, level)"
    for policy_key level
  proof -
    from that(1) keys have k: "policy_key \<in> set policy_keys"
      by (metis fst_conv image_eqI set_map)
    from that(1) levels have "0 \<le> level"
      by force
    with that(2) have l: "1 \<le> level"
      by simp
    from that(2) have p: "0 < fl (?c policy_key * of_int level)"
      by simp
    from positive_cost_value [OF k l p] show ?thesis
      by simp
  qed
  show "\<forall>v\<in>set (map t_value (acc_fiscal_treemap s)). 1 / 2 \<le> v"
    unfolding tm using pos by auto
  have "''carbon_tax'' \<in> set (map fst policies)"
    by (simp add: keys policy_keys_def)
  then obtain level where ct: "(''carbon_tax'', level) \<in> set policies"
    by auto
  have "\<not> ?P (''carbon_tax'', level)"
    using pos [OF ct] by blast
  with ct have "length (filter ?P policies) < length policies"
    by (rule length_filter_less)
  moreover have "length policies = 8"
    using arg_cong [OF keys, of length] by (simp add: policy_keys_def)
  ultimately show "length (acc_fiscal_treemap s) \<le> 7"
    by (simp add: len)
qed

lemma init_engine_percentages_total:
  assumes san: "sanitize_all float_of_str policy_inputs policy_keys = Inr policies"
    and loop: "impact_loop init_engine policies loop_start = Inr s"
    and ne: "acc_fiscal_treemap s \<noteq> []"
    and lo: "(1 - 1 / 10 ^ 15) * sum_list (map t_value (acc_fiscal_treemap s)) \<le> T"
    and hi: "T \<le> (1 + 1 / 10 ^ 15) * sum_list (map t_value (acc_fiscal_treemap s))"
  shows "0 < T"
    and "\<bar>sum_list (percentages_of T (map t_value (acc_fiscal_treemap s))) - 100\<bar>
      \<le> real (length (acc_fiscal_treemap s)) / 20 + 1 / 1000"
proof -
  define vs where "vs = map t_value (acc_fiscal_treemap s)"
  from init_engine_treemap [OF san loop]
  have half: "\<forall>v\<in>set vs. 1 / 2 \<le> v" and len7: "length vs \<le> 7"
    by (simp_all add: vs_def)
  from half have vs0: "\<forall>v\<in>set vs. 0 \<le> v"
    by force
  from ne obtain v vs' where vs: "vs = v # vs'"
    by (cases vs) (simp_all add: vs_def)
  with half have "1 / 2 \<le> v" and "\<forall>v\<in>set vs'. 0 \<le> v"
    by force+
  then have "1 / 2 \<le> v + sum_list vs'"
    using sum_list_nonneg [of vs'] by force
  then have S: "0 < sum_list vs"
    by (simp add: vs)
  from len7 have len8: "length vs \<le> 8"
    by simp
  have "0 < (1 - 1 / 10 ^ 15) * sum_list vs"
    using S by simp
  then show T: "0 < T"
    using lo [folded vs_def] by (rule less_le_trans)
  have "length (acc_fiscal_treemap s) = length vs"
    by (simp add: vs_def)
  then show "\<bar>sum_list (percentages_of T (map t_value (acc_fiscal_treemap s))) - 100\<bar>
      \<le> real (length (acc_fiscal_treemap s)) / 20 + 1 / 1000"
    using percentages_sum_close [OF T vs0 S len8 lo [folded vs_def] hi [folded vs_def]]
    by (simp add: vs_def)
qed

lemma init_engine_percentages:
  assumes san: "sanitize_all float_of_str policy_inputs policy_keys = Inr policies"
    and loop: "impact_loop init_engine policies loop_start = Inr s"
    and ne: "acc_fiscal_treemap s \<noteq> []"
  shows "map t_percentage (treemap_percentages (acc_fiscal_treemap s))
      = percentages_of (py_sum (map t_value (acc_fiscal_treemap s)))
          (map t_value (acc_fiscal_treemap s))"
    and "\<bar>sum_list (map t_percentage (treemap_percentages (acc_fiscal_treemap s))) - 100\<bar>
      \<le> real (length (acc_fiscal_treemap s)) / 20 + 1 / 1000"
proof -
  let ?vs = "map t_value (acc_fiscal_treemap s)"
  from init_engine_treemap [OF san loop]
  have vs0: "\<forall>v\<in>set ?vs. 0 \<le> v" and len8: "length ?vs \<le> 8"
    by force+
  from py_sum_accuracy [OF vs0 len8]
  have lo: "(1 - 1 / 10 ^ 15) * sum_list ?vs \<le> py_sum ?vs"
    and hi: "py_sum ?vs \<le> (1 + 1 / 10 ^ 15) * sum_list ?vs"
    by simp_all
  from init_engine_percentages_total [OF san loop ne lo hi]
  have T: "0 < py_sum ?vs"
    and b: "\<bar>sum_list (percentages_of (py_sum ?vs) ?vs) - 100\<bar>
      \<le> real (length (acc_fiscal_treemap s)) / 20 + 1 / 1000"
    by simp_all
  show e: "map t_percentage (treemap_percentages (acc_fiscal_treemap s))
      = percentages_of (py_sum ?vs) ?vs"
    using T by (simp add: treemap_percentages_values)
  show "\<bar>sum_list (map t_percentage (treemap_percentages (acc_fiscal_treemap s))) - 100\<bar>
      \<le> real (length (acc_fiscal_treemap s)) / 20 + 1 / 1000"
    unfolding e by (rule b)
qed

lemma treemap_example:
  "\<exists>r. calculate_impacts init_engine float_of_str
         [''ev_adoption'' \<mapsto> PyInt 10, ''renewable_energy'' \<mapsto> PyInt 10,
          ''reforestation'' \<mapsto> PyInt 20, ''public_transport'' \<mapsto> PyInt 90,
          ''industrial_controls'' \<mapsto> PyInt 40, ''green_buildings'' \<mapsto> PyInt 10,
          ''waste_management'' \<mapsto> PyInt 10] = Inr r
     \<and> policies_applied r =
         [(''ev_adoption'', 10), (''renewable_energy'', 10), (''carbon_tax'', 0),
          (''reforestation'', 20), (''public_transport'', 90), (''industrial_controls'', 40),
          (''green_buildings'', 10), (''waste_management'', 10)]
     \<and> map t_value (fiscal_treemap r) = [12, 25, 12, 162, 60, 10, 8]
     \<and> map t_percentage (fiscal_treemap r) =
         [fl (42 / 10), fl (87 / 10), fl (42 / 10), fl (561 / 10), fl (208 / 10), fl (35 / 10),
          fl (28 / 10)]"
proof -
  let ?pd = "\<lambda>policy_key. the (map_of POLICY_COSTS policy_key)"
  define policies :: "(string \<times> int) list" where "policies =
         [(''ev_adoption'', 10), (''renewable_energy'', 10), (''carbon_tax'', 0),
          (''reforestation'', 20), (''public_transport'', 90), (''industrial_controls'', 40),
          (''green_buildings'', 10), (''waste_management'', 10)]"
  define s where "s =
     loop_body (?pd ''waste_management'') 10
      (loop_body (?pd ''green_buildings'') 10
        (loop_body (?pd ''industrial_controls'') 40
          (loop_body (?pd ''public_transport'') 90
            (loop_body (?pd ''reforestation'') 20
              (loop_body (?pd ''renewable_energy'') 10
                (loop_body (?pd ''ev_adoption'') 10 loop_start))))))"
  define r where "r = build_result init_engine policies s"
  have san: "sanitize_all float_of_str
         [''ev_adoption'' \<mapsto> PyInt 10, ''renewable_energy'' \<mapsto> PyInt 10,
          ''reforestation'' \<mapsto> PyInt 20, ''public_transport'' \<mapsto> PyInt 90,
          ''industrial_controls'' \<mapsto> PyInt 40, ''green_buildings'' \<mapsto> PyInt 10,
          ''waste_management'' \<mapsto> PyInt 10] policy_keys = Inr policies"
    by (simp add: policy_keys_def policies_def sanitize_slider_value_examples)
  have loop: "impact_loop init_engine policies loop_start = Inr s"
    by (simp add: policies_def s_def policy_lookup policy_keys_def)
  have run: "calculate_impacts init_engine float_of_str
         [''ev_adoption'' \<mapsto> PyInt 10, ''renewable_energy'' \<mapsto> PyInt 10,
          ''reforestation'' \<mapsto> PyInt 20, ''public_transport'' \<mapsto> PyInt 90,
          ''industrial_controls'' \<mapsto> PyInt 40, ''green_buildings'' \<mapsto> PyInt 10,
          ''waste_management'' \<mapsto> PyInt 10] = Inr r"
    by (simp add: calculate_impacts_def san loop r_def)
  have pa: "policies_applied r =
         [(''ev_adoption'', 10), (''renewable_energy'', 10), (''carbon_tax'', 0),
          (''reforestation'', 20), (''public_transport'', 90), (''industrial_controls'', 40),
          (''green_buildings'', 10), (''waste_management'', 10)]"
    by (simp add: r_def build_result_flag policies_def)
  have tm: "map t_value (acc_fiscal_treemap s) = [12, 25, 12, 162, 60, 10, 8]"
    unfolding s_def loop_body_treemap cost_per_unit_table
    by (simp add: loop_start_def num_eval)
  have vals: "map t_value (fiscal_treemap r) = [12, 25, 12, 162, 60, 10, 8]"
    unfolding r_def build_result_fields treemap_percentages_keeps by (rule tm)
  have total: "py_sum [12, 25, 12, 162, 60, 10, 8] = 289"
    by (simp add: py_sum_def num_eval)
  have p: "round_to_precision (fl (fl (12 / 289) * 100)) 1 = fl (42 / 10)"
    "round_to_precision (fl (fl (25 / 289) * 100)) 1 = fl (87 / 10)"
    "round_to_precision (fl (fl (162 / 289) * 100)) 1 = fl (561 / 10)"
    "round_to_precision (fl (fl (60 / 289) * 100)) 1 = fl (208 / 10)"
    "round_to_precision (fl (fl (10 / 289) * 100)) 1 = fl (35 / 10)"
    "round_to_precision (fl (fl (8 / 289) * 100)) 1 = fl (28 / 10)"
    by (simp_all add: num_eval)
  have pct: "map t_percentage (fiscal_treemap r) =
         [fl (42 / 10), fl (87 / 10), fl (42 / 10), fl (561 / 10), fl (208 / 10), fl (35 / 10),
          fl (28 / 10)]"
    unfolding r_def build_result_fields treemap_percentages_values tm total
      percentages_of.simps p
    by simp
  show ?thesis
    by (rule exI [where x = r], intro conjI) (fact run pa vals pct)+
qed

text \<open>
  Claim C7, with the tolerance corrected: the treemap of every result has one entry for
  each lever whose level is not 0 and whose cost, the float product
  \<open>cost_per_unit * level\<close>, is strictly positive, in the order of the levers and under the
  lever's label.  With the shipped tables a treemap that is not empty has at most seven
  entries; the percentage of each entry is its value divided by the sum of the values,
  times 100, rounded to one decimal; and the percentages sum to 100 within 0.05 for each
  entry, up to 0.001 for the float arithmetic: within 0.36 in all.  The sum of the
  percentages is the exact sum of the floats.  The same bound holds with any total that is
  within a relative \<open>10\<^sup>-\<^sup>1\<^sup>5\<close> of the exact sum of the values in the place of the float sum.
\<close>

theorem treemap_percentages_sum:
  assumes "calculate_impacts self float_of_str policy_inputs = Inr r"
  shows "map t_name (fiscal_treemap r) =
       map (\<lambda>(policy_key, level). label (the (map_of (policy_costs self) policy_key)))
         (filter (\<lambda>(policy_key, level). level \<noteq> 0
              \<and> 0 < fl (cost_per_unit (the (map_of (policy_costs self) policy_key)) * of_int level))
            (policies_applied r))
     \<and> (self = init_engine \<longrightarrow> fiscal_treemap r \<noteq> [] \<longrightarrow>
          length (fiscal_treemap r) \<le> 7
        \<and> map t_percentage (fiscal_treemap r) =
            percentages_of (py_sum (map t_value (fiscal_treemap r)))
              (map t_value (fiscal_treemap r))
        \<and> \<bar>sum_list (map t_percentage (fiscal_treemap r)) - 100\<bar>
            \<le> real (length (fiscal_treemap r)) / 20 + 1 / 1000
        \<and> \<bar>sum_list (map t_percentage (fiscal_treemap r)) - 100\<bar> \<le> 36 / 100
        \<and> (\<forall>T. (1 - 1 / 10 ^ 15) * sum_list (map t_value (fiscal_treemap r)) \<le> T
               \<and> T \<le> (1 + 1 / 10 ^ 15) * sum_list (map t_value (fiscal_treemap r)) \<longrightarrow>
             \<bar>sum_list (percentages_of T (map t_value (fiscal_treemap r))) - 100\<bar>
               \<le> 36 / 100))"
proof -
  from calculate_impacts_Inr [OF assms] obtain policies s where
    san: "sanitize_all float_of_str policy_inputs policy_keys = Inr policies"
    and loop: "impact_loop self policies loop_start = Inr s"
    and r: "r = build_result self policies s"
    by blast
  have tm: "fiscal_treemap r = treemap_percentages (acc_fiscal_treemap s)"
    and pa: "policies_applied r = policies"
    by (simp_all add: r build_result_fields build_result_flag)
  have vals: "map t_value (fiscal_treemap r) = map t_value (acc_fiscal_treemap s)"
    and len: "length (fiscal_treemap r) = length (acc_fiscal_treemap s)"
    by (simp_all add: tm treemap_percentages_keeps)
  have names: "map t_name (fiscal_treemap r) =
       map (\<lambda>(policy_key, level). label (the (map_of (policy_costs self) policy_key)))
         (filter (\<lambda>(policy_key, level). level \<noteq> 0
              \<and> 0 < fl (cost_per_unit (the (map_of (policy_costs self) policy_key)) * of_int level))
            (policies_applied r))"
    unfolding tm pa treemap_percentages_keeps impact_loop_treemap [OF loop]
    by (simp add: loop_start_def comp_def case_prod_unfold)
  have shipped: "length (fiscal_treemap r) \<le> 7
        \<and> map t_percentage (fiscal_treemap r) =
            percentages_of (py_sum (map t_value (fiscal_treemap r)))
              (map t_value (fiscal_treemap r))
        \<and> \<bar>sum_list (map t_percentage (fiscal_treemap r)) - 100\<bar>
            \<le> real (length (fiscal_treemap r)) / 20 + 1 / 1000
        \<and> \<bar>sum_list (map t_percentage (fiscal_treemap r)) - 100\<bar> \<le> 36 / 100
        \<and> (\<forall>T. (1 - 1 / 10 ^ 15) * sum_list (map t_value (fiscal_treemap r)) \<le> T
               \<and> T \<le> (1 + 1 / 10 ^ 15) * sum_list (map t_value (fiscal_treemap r)) \<longrightarrow>
             \<bar>sum_list (percentages_of T (map t_value (fiscal_treemap r))) - 100\<bar>
               \<le> 36 / 100)"
    if self: "self = init_engine" and ne: "fiscal_treemap r \<noteq> []"
  proof -
    from loop self have loop': "impact_loop init_engine policies loop_start = Inr s"
      by simp
    from ne len have ne': "acc_fiscal_treemap s \<noteq> []"
      by auto
    from init_engine_treemap(2) [OF san loop'] have l7: "length (fiscal_treemap r) \<le> 7"
      by (simp add: len)
    then have l36: "real (length (fiscal_treemap r)) / 20 + 1 / 1000 \<le> 36 / 100"
      by simp
    from init_engine_percentages [OF san loop' ne']
    have e: "map t_percentage (fiscal_treemap r) =
            percentages_of (py_sum (map t_value (fiscal_treemap r)))
              (map t_value (fiscal_treemap r))"
      and b: "\<bar>sum_list (map t_percentage (fiscal_treemap r)) - 100\<bar>
            \<le> real (length (fiscal_treemap r)) / 20 + 1 / 1000"
      unfolding vals len by (simp_all add: tm)
    from b l36 have b36: "\<bar>sum_list (map t_percentage (fiscal_treemap r)) - 100\<bar> \<le> 36 / 100"
      by (rule order_trans)
    have any: "\<bar>sum_list (percentages_of T (map t_value (fiscal_treemap r))) - 100\<bar> \<le> 36 / 100"
      if "(1 - 1 / 10 ^ 15) * sum_list (map t_value (fiscal_treemap r)) \<le> T"
        and "T \<le> (1 + 1 / 10 ^ 15) * sum_list (map t_value (fiscal_treemap r))" for T
    proof -
      from that have lo: "(1 - 1 / 10 ^ 15) * sum_list (map t_value (acc_fiscal_treemap s)) \<le> T"
        and hi: "T \<le> (1 + 1 / 10 ^ 15) * sum_list (map t_value (acc_fiscal_treemap s))"
        unfolding vals by blast+
      from init_engine_percentages_total(2) [OF san loop' ne' lo hi]
      have "\<bar>sum_list (percentages_of T (map t_value (fiscal_treemap r))) - 100\<bar>
            \<le> real (length (fiscal_treemap r)) / 20 + 1 / 1000"
        unfolding vals len .
      then show ?thesis
        using l36 by (rule order_trans)
    qed
    from l7 e b b36 any show ?thesis
      by blast
  qed
  from names shipped show ?thesis
    by blast
qed

theorem treemap_percentages_sum_witness:
  "(case calculate_impacts init_engine (\<lambda>_. None)
         [''ev_adoption'' \<mapsto> PyInt 10, ''renewable_energy'' \<mapsto> PyInt 10,
          ''reforestation'' \<mapsto> PyInt 20, ''public_transport'' \<mapsto> PyInt 90,
          ''industrial_controls'' \<mapsto> PyInt 40, ''green_buildings'' \<mapsto> PyInt 10,
          ''waste_management'' \<mapsto> PyInt 10] of
      Inl e \<Rightarrow> False
    | Inr r \<Rightarrow>
        map t_name (fiscal_treemap r) =
          [''EV Adoption Incentives'', ''Renewable Energy Expansion'', ''Reforestation Programs'',
           ''Public Transport Expansion'', ''Industrial Emission Controls'',
           ''Green Building Standards'', ''Waste Management & Recycling'']
      \<and> fiscal_treemap r \<noteq> []
      \<and> length (fiscal_treemap r) \<le> 7
      \<and> map t_percentage (fiscal_treemap r) =
            percentages_of (py_sum (map t_value (fiscal_treemap r)))
              (map t_value (fiscal_treemap r))
      \<and> \<bar>sum_list (map t_percentage (fiscal_treemap r)) - 100\<bar>
            \<le> real (length (fiscal_treemap r)) / 20 + 1 / 1000
      \<and> \<bar>sum_list (map t_percentage (fiscal_treemap r)) - 100\<bar> \<le> 36 / 100
      \<and> \<bar>sum_list (percentages_of 289 (map t_value (fiscal_treemap r))) - 100\<bar> \<le> 36 / 100)"
proof -
  from treemap_example [of "\<lambda>_. None"] obtain r where
    run: "calculate_impacts init_engine (\<lambda>_. None)
         [''ev_adoption'' \<mapsto> PyInt 10, ''renewable_energy'' \<mapsto> PyInt 10,
          ''reforestation'' \<mapsto> PyInt 20, ''public_transport'' \<mapsto> PyInt 90,
          ''industrial_controls'' \<mapsto> PyInt 40, ''green_buildings'' \<mapsto> PyInt 10,
          ''waste_management'' \<mapsto> PyInt 10] = Inr r"
    and pa: "policies_applied r =
         [(''ev_adoption'', 10), (''renewable_energy'', 10), (''carbon_tax'', 0),
          (''reforestation'', 20), (''public_transport'', 90), (''industrial_controls'', 40),
          (''green_buildings'', 10), (''waste_management'', 10)]"
    and vals: "map t_value (fiscal_treemap r) = [12, 25, 12, 162, 60, 10, 8]"
    by (elim exE conjE)
  from vals have ne: "fiscal_treemap r \<noteq> []"
    by auto
  have pos: "0 < fl (fl (6 / 5) * 10)" "0 < fl (fl (5 / 2) * 10)" "0 < fl (fl (3 / 5) * 20)"
    "0 < fl (fl (9 / 5) * 90)" "0 < fl (fl (3 / 2) * 40)" "0 < fl (fl 1 * 10)"
    "0 < fl (fl (4 / 5) * 10)"
    by (simp_all add: fl_pos)
  have total: "(1 - 1 / 10 ^ 15) * sum_list (map t_value (fiscal_treemap r)) \<le> 289
      \<and> 289 \<le> (1 + 1 / 10 ^ 15) * sum_list (map t_value (fiscal_treemap r))"
    by (simp add: vals)
  have names: "map t_name (fiscal_treemap r) =
          [''EV Adoption Incentives'', ''Renewable Energy Expansion'', ''Reforestation Programs'',
           ''Public Transport Expansion'', ''Industrial Emission Controls'',
           ''Green Building Standards'', ''Waste Management & Recycling'']"
    unfolding treemap_percentages_sum [OF run, THEN conjunct1]
    by (simp add: pa init_engine_def POLICY_COSTS_def pos)
  note shipped = treemap_percentages_sum [OF run, THEN conjunct2, THEN mp, OF refl, THEN mp, OF ne]
  from shipped total
  have "\<bar>sum_list (percentages_of 289 (map t_value (fiscal_treemap r))) - 100\<bar> \<le> 36 / 100"
    by blast
  with names shipped ne show ?thesis
    unfolding run sum.case by blast
qed

text \<open>
  The tolerance that claim C7 names, 0.2, is exceeded: for the levels 10, 10, 0, 20, 90, 40,
  10, 10 the seven costs are 12, 25, 12, 162, 60, 10 and 8, their sum is 289, and the
  percentages are 4.2, 8.7, 4.2, 56.1, 20.8, 3.5 and 2.8, which sum to 100.3.  The costs and
  all their partial sums are integers, so the total 289 is exact whatever the order or
  the method of the summation.
\<close>

theorem treemap_percentages_counterexample:
  "(case calculate_impacts init_engine (\<lambda>_. None)
         [''ev_adoption'' \<mapsto> PyInt 10, ''renewable_energy'' \<mapsto> PyInt 10,
          ''reforestation'' \<mapsto> PyInt 20, ''public_transport'' \<mapsto> PyInt 90,
          ''industrial_controls'' \<mapsto> PyInt 40, ''green_buildings'' \<mapsto> PyInt 10,
          ''waste_management'' \<mapsto> PyInt 10] of
      Inl e \<Rightarrow> False
    | Inr r \<Rightarrow>
        fiscal_treemap r \<noteq> []
      \<and> map t_percentage (fiscal_treemap r) =
         [fl (42 / 10), fl (87 / 10), fl (42 / 10), fl (561 / 10), fl (208 / 10), fl (35 / 10),
          fl (28 / 10)]
      \<and> 10029 / 100 < sum_list (map t_percentage (fiscal_treemap r))
      \<and> \<not> \<bar>sum_list (map t_percentage (fiscal_treemap r)) - 100\<bar> \<le> 2 / 10)"
proof -
  from treemap_example [of "\<lambda>_. None"] obtain r where
    run: "calculate_impacts init_engine (\<lambda>_. None)
         [''ev_adoption'' \<mapsto> PyInt 10, ''renewable_energy'' \<mapsto> PyInt 10,
          ''reforestation'' \<mapsto> PyInt 20, ''public_transport'' \<mapsto> PyInt 90,
          ''industrial_controls'' \<mapsto> PyInt 40, ''green_buildings'' \<mapsto> PyInt 10,
          ''waste_management'' \<mapsto> PyInt 10] = Inr r"
    and pct: "map t_percentage (fiscal_treemap r) =
         [fl (42 / 10), fl (87 / 10), fl (42 / 10), fl (561 / 10), fl (208 / 10), fl (35 / 10),
          fl (28 / 10)]"
    by (elim exE conjE)
  from pct have ne: "fiscal_treemap r \<noteq> []"
    by auto
  have s: "10029 / 100 < sum_list
         [fl (42 / 10), fl (87 / 10), fl (42 / 10), fl (561 / 10), fl (208 / 10), fl (35 / 10),
          fl (28 / 10)]"
    by (simp add: num_eval)
  then have "\<not> \<bar>sum_list
         [fl (42 / 10), fl (87 / 10), fl (42 / 10), fl (561 / 10), fl (208 / 10), fl (35 / 10),
          fl (28 / 10)] - 100\<bar> \<le> 2 / 10"
    by (simp only: abs_le_iff) linarith
  with s ne show ?thesis
    unfolding run pct sum.case by (intro conjI refl)
qed

end
